theory Spec2Isabelle
  imports Main "HOL-Library.Stream"
begin

section \<open>Data model\<close>

text \<open>
  The block structure of the board server, with the fields that the API layer reads or
  writes. Identifiers are strings, timestamps are signed 64-bit millisecond counts (no
  arithmetic is done on them here, only comparisons, so they are integers), and the
  schema-less remainder of a block is kept as one opaque value.
\<close>

record block =
  block_ID :: string
  block_BoardID :: string
  block_ParentID :: string
  block_ModifiedBy :: string
  block_Type :: string
  block_CreateAt :: int
  block_UpdateAt :: int
  block_Fields :: string

section \<open>The orphan filter\<close>

text \<open>
  First loop of \<open>filterOrphanBlocks\<close>: blocks without a parent are queued, every other
  block is appended to the sibling list stored under its parent identifier.
\<close>

fun buildTrees ::
  "block list \<Rightarrow> block list \<Rightarrow> (string \<rightharpoonup> block list) \<Rightarrow> block list \<times> (string \<rightharpoonup> block list)"
where
  "buildTrees [] queue childrenOfBlockWithID = (queue, childrenOfBlockWithID)"
| "buildTrees (b # bs) queue childrenOfBlockWithID =
     (if length (block_ParentID b) = 0 then buildTrees bs (queue @ [b]) childrenOfBlockWithID
      else (case childrenOfBlockWithID (block_ParentID b) of
              Some siblings \<Rightarrow>
                buildTrees bs queue (childrenOfBlockWithID(block_ParentID b \<mapsto> siblings @ [b]))
            | None \<Rightarrow>
                buildTrees bs queue (childrenOfBlockWithID(block_ParentID b \<mapsto> [b]))))"

text \<open>
  Second loop: the queue is drained from the front, every dequeued block is appended to
  the result and its recorded children are appended to the queue. Nothing bounds the
  number of iterations, so the loop is a partial function: \<open>None\<close> means that it does not
  return.
\<close>

partial_function (option) mapTrees ::
  "(string \<rightharpoonup> block list) \<Rightarrow> block list \<Rightarrow> block list \<Rightarrow> block list option"
where
  "mapTrees childrenOfBlockWithID queue blocks =
     (case queue of
        [] \<Rightarrow> Some blocks
      | b # rest \<Rightarrow>
          (case childrenOfBlockWithID (block_ID b) of
             None \<Rightarrow> mapTrees childrenOfBlockWithID rest (blocks @ [b])
           | Some children \<Rightarrow> mapTrees childrenOfBlockWithID (rest @ children) (blocks @ [b])))"

definition filterOrphanBlocks :: "block list \<Rightarrow> block list option" where
  "filterOrphanBlocks blocks =
     (case buildTrees blocks [] Map.empty of
        (queue, childrenOfBlockWithID) \<Rightarrow> mapTrees childrenOfBlockWithID queue [])"

declare mapTrees.simps [code]

text \<open>
  The breadth-first order in the words of the specification: the roots are the blocks
  with an empty parent identifier, in the order supplied; the children of a block are the
  blocks naming it as parent, in the order supplied; level \<open>n + 1\<close> lists the children of
  the blocks of level \<open>n\<close>, block by block; the traversal is the concatenation of the
  levels.
\<close>

definition rootBlocks :: "block list \<Rightarrow> block list" where
  "rootBlocks blocks = filter (\<lambda>b. block_ParentID b = []) blocks"

definition childBlocks :: "block list \<Rightarrow> block \<Rightarrow> block list" where
  "childBlocks blocks p =
     filter (\<lambda>c. block_ParentID c \<noteq> [] \<and> block_ParentID c = block_ID p) blocks"

primrec bfsLevel :: "block list \<Rightarrow> nat \<Rightarrow> block list" where
  "bfsLevel blocks 0 = rootBlocks blocks"
| "bfsLevel blocks (Suc n) = concat (map (childBlocks blocks) (bfsLevel blocks n))"

definition breadthFirst :: "block list \<Rightarrow> nat \<Rightarrow> block list" where
  "breadthFirst blocks N = concat (map (bfsLevel blocks) [0..<N])"

text \<open>
  Two auxiliary notions for the proofs about the queue loop: the children that the map
  records for a block (none when the key is absent), and the successive generations of a
  queue under a fixed map.
\<close>

definition kids :: "(string \<rightharpoonup> block list) \<Rightarrow> block \<Rightarrow> block list" where
  "kids ch b = (case ch (block_ID b) of None \<Rightarrow> [] | Some cs \<Rightarrow> cs)"

primrec queueLevel :: "(string \<rightharpoonup> block list) \<Rightarrow> block list \<Rightarrow> nat \<Rightarrow> block list" where
  "queueLevel ch q 0 = q"
| "queueLevel ch q (Suc n) = concat (map (kids ch) (queueLevel ch q n))"

text \<open>Sample blocks for the worked examples.\<close>

definition sampleBlock :: "string \<Rightarrow> string \<Rightarrow> string \<Rightarrow> block" where
  "sampleBlock i p t =
     \<lparr>block_ID = i, block_BoardID = ''board'', block_ParentID = p, block_ModifiedBy = [],
      block_Type = t, block_CreateAt = 1, block_UpdateAt = 1, block_Fields = []\<rparr>"

section \<open>The API layer\<close>

subsection \<open>Requests, bundles and collaborators\<close>

text \<open>
  Go's \<open>error\<close> values are kept as strings; the handlers only test whether one is present.
\<close>

type_synonym err = string

definition SingleUser :: string where
  "SingleUser = ''single-user''"

text \<open>
  What a handler reads of the HTTP request: the user identifier of the session stored in
  the request context (if a session is attached), the path variables (a missing key reads
  as the empty string, as a Go map lookup does) and the query values.
\<close>

record request =
  req_Session :: "string option"
  req_Vars :: "string \<Rightarrow> string"
  req_Query :: "string \<Rightarrow> string list"

definition getUserID :: "request \<Rightarrow> string" where
  "getUserID r = (case req_Session r of None \<Rightarrow> [] | Some userID \<Rightarrow> userID)"

text \<open>\<open>url.Values.Get\<close>: the first value stored under the key, or the empty string.\<close>

definition queryGet :: "request \<Rightarrow> string \<Rightarrow> string" where
  "queryGet r key = (case req_Query r key of [] \<Rightarrow> [] | v # _ \<Rightarrow> v)"

text \<open>
  The request body after \<open>ioutil.ReadAll\<close> and \<open>json.Unmarshal\<close>: reading can fail,
  decoding can fail, the JSON value \<open>null\<close> decodes without error into a nil pointer (or
  a nil slice), and anything else decodes into a value.
\<close>

datatype 'a body = Unreadable | Malformed | Null | Decoded 'a

datatype boardType = BoardTypeOpen | BoardTypePrivate | BoardTypeOther string

record board =
  board_ID :: string
  board_TeamID :: string
  board_Type :: boardType
  board_Properties :: string

record boardsAndBlocks =
  bab_Boards :: "board list"
  bab_Blocks :: "block list"

record boardPatch =
  patch_Type :: "boardType option"
  patch_Properties :: string

record patchBoardsAndBlocks =
  pbab_BoardIDs :: "string list"
  pbab_BoardPatches :: "boardPatch list"
  pbab_BlockIDs :: "string list"
  pbab_BlockPatches :: "string list"

record deleteBoardsAndBlocks =
  dbab_Boards :: "string list"
  dbab_Blocks :: "string list"

datatype permission =
    PermissionViewBoard
  | PermissionManageBoardCards
  | PermissionManageBoardProperties
  | PermissionManageBoardType
  | PermissionDeleteBoard
  | PermissionCreatePublicChannel
  | PermissionCreatePrivateChannel

text \<open>
  The collaborators of the handlers: the permission service, the application layer with
  its store, the validation and identifier-generation functions of the model package and
  the JSON encoder, and the generator of new identifiers. Their code is outside the API
  layer; a handler sees only what they return, so they are parameters here.
\<close>

record env =
  perm_HasPermissionToTeam :: "string \<Rightarrow> string \<Rightarrow> permission \<Rightarrow> bool"
  perm_HasPermissionToBoard :: "string \<Rightarrow> string \<Rightarrow> permission \<Rightarrow> bool"
  app_IsValidReadToken :: "string \<Rightarrow> string \<Rightarrow> err + bool"
  app_GetBoard :: "string \<Rightarrow> err + board option"
  app_GetBlockWithID :: "string \<Rightarrow> err + block option"
  app_GetSubTree :: "string \<Rightarrow> string \<Rightarrow> int \<Rightarrow> err + block list"
  app_InsertBlocks :: "block list \<Rightarrow> string \<Rightarrow> bool \<Rightarrow> err + block list"
  app_CreateBoardsAndBlocks :: "boardsAndBlocks \<Rightarrow> string \<Rightarrow> bool \<Rightarrow> err + boardsAndBlocks"
  app_PatchBoardsAndBlocks :: "patchBoardsAndBlocks \<Rightarrow> string \<Rightarrow> err + boardsAndBlocks"
  app_DeleteBoardsAndBlocks :: "deleteBoardsAndBlocks \<Rightarrow> string \<Rightarrow> err option"
  model_GenerateBoardsAndBlocksIDs :: "boardsAndBlocks \<Rightarrow> err + boardsAndBlocks"
  utils_NewID :: "string \<Rightarrow> string"
  pbab_IsValid :: "patchBoardsAndBlocks \<Rightarrow> err option"
  patch_IsValid :: "boardPatch \<Rightarrow> err option"
  dbab_IsValid :: "deleteBoardsAndBlocks \<Rightarrow> err option"
  json_MarshalBoardsAndBlocks :: "boardsAndBlocks \<Rightarrow> err + string"
  json_MarshalBlocks :: "block list \<Rightarrow> err + string"

text \<open>
  Modelled from the spec: \<open>GenerateBlockIDs\<close> of the model package is not in the API
  source file. It is the identifier resolver of the specification on a bundle without
  boards: every block receives a newly generated identifier, and a parent identifier that
  refers to a block of the list is replaced by the new identifier of that block; no other
  field of a block changes. \<open>newID\<close> gives the identifier generated for a placeholder
  (\<open>utils_NewID\<close> of the collaborators).
\<close>

definition GenerateBlockIDs :: "(string \<Rightarrow> string) \<Rightarrow> block list \<Rightarrow> block list" where
  "GenerateBlockIDs newID blocks =
     map (\<lambda>b. b\<lparr>block_ID := newID (block_ID b),
                 block_ParentID := (if block_ParentID b \<in> set (map block_ID blocks)
                                    then newID (block_ParentID b) else block_ParentID b)\<rparr>)
       blocks"

subsection \<open>Audit records\<close>

datatype auditStatus = audit_Fail | audit_Success

datatype auditLevel = LevelRead | LevelModify

datatype metaValue = MetaString string | MetaInt int | MetaBlock block

record auditRecord =
  rec_Event :: string
  rec_Status :: auditStatus
  rec_UserID :: string
  rec_Meta :: "(string \<times> metaValue) list"

text \<open>
  Modelled from the spec: \<open>makeAuditRecord\<close> and the methods \<open>AddMeta\<close> and \<open>Success\<close> of
  the audit record are not in the API source file. An audit record carries the operation
  name, the actor, key-value metadata and an outcome; the outcome is the initial status
  handed to \<open>makeAuditRecord\<close> until \<open>Success\<close> flips it.
\<close>

definition makeAuditRecord :: "request \<Rightarrow> string \<Rightarrow> auditStatus \<Rightarrow> auditRecord" where
  "makeAuditRecord r event initialStatus =
     \<lparr>rec_Event = event, rec_Status = initialStatus, rec_UserID = getUserID r, rec_Meta = []\<rparr>"

definition AddMeta :: "auditRecord \<Rightarrow> string \<Rightarrow> metaValue \<Rightarrow> auditRecord" where
  "AddMeta auditRec name val = auditRec\<lparr>rec_Meta := rec_Meta auditRec @ [(name, val)]\<rparr>"

definition Success :: "auditRecord \<Rightarrow> auditRecord" where
  "Success auditRec = auditRec\<lparr>rec_Status := audit_Success\<rparr>"

subsection \<open>Observable effects\<close>

text \<open>
  A handler is modelled by the sequence of its effects, in program order: the calls to the
  permission service, to the application layer and to the identifier generator, the
  response written, the audit record handed to the audit log when the handler returns
  (the deferred \<open>LogRecord\<close>), and a panic. \<open>ErrorResponse code message\<close> is a call of
  \<open>errorResponse\<close>; \<open>JsonResponse code data\<close> is a call of \<open>jsonBytesResponse\<close> or
  \<open>jsonStringResponse\<close>.
\<close>

datatype event =
    HasPermissionToTeam string string permission
  | HasPermissionToBoard string string permission
  | IsValidReadToken string string
  | GetBoard string
  | GetBlockWithID string
  | GetSubTree string string int
  | GenerateBoardsAndBlocksIDs boardsAndBlocks
  | CreateBoardsAndBlocks boardsAndBlocks string bool
  | PatchBoardsAndBlocks patchBoardsAndBlocks string
  | DeleteBoardsAndBlocks deleteBoardsAndBlocks string
  | InsertBlocks "block list" string bool
  | ErrorResponse int string
  | JsonResponse int string
  | LogRecord auditLevel auditRecord
  | Panic

text \<open>
  A part of a handler yields its effects and, unless the handler has returned in it, the
  value with which the handler goes on. \<open>emit\<close> puts effects in front of a part.
\<close>

type_synonym 'a part = "event list \<times> 'a option"

definition emit :: "event list \<Rightarrow> 'a part \<Rightarrow> 'a part" where
  "emit es p = (es @ fst p, snd p)"

fun isPermissionCheck :: "event \<Rightarrow> bool" where
  "isPermissionCheck (HasPermissionToTeam userID teamID p) = True"
| "isPermissionCheck (HasPermissionToBoard userID boardID p) = True"
| "isPermissionCheck e = False"

fun isErrorResponse :: "event \<Rightarrow> bool" where
  "isErrorResponse (ErrorResponse code message) = True"
| "isErrorResponse e = False"

fun isResponse :: "event \<Rightarrow> bool" where
  "isResponse (ErrorResponse code message) = True"
| "isResponse (JsonResponse code data) = True"
| "isResponse e = False"

fun isCommit :: "event \<Rightarrow> bool" where
  "isCommit (CreateBoardsAndBlocks bab userID addMember) = True"
| "isCommit (PatchBoardsAndBlocks pbab userID) = True"
| "isCommit (DeleteBoardsAndBlocks dbab userID) = True"
| "isCommit e = False"

fun isLogRecord :: "event \<Rightarrow> bool" where
  "isLogRecord (LogRecord level auditRec) = True"
| "isLogRecord e = False"

text \<open>The audit records handed to the audit log, and the status codes written.\<close>

fun loggedRecords :: "event list \<Rightarrow> auditRecord list" where
  "loggedRecords [] = []"
| "loggedRecords (LogRecord level auditRec # es) = auditRec # loggedRecords es"
| "loggedRecords (e # es) = loggedRecords es"

fun responseCodes :: "event list \<Rightarrow> int list" where
  "responseCodes [] = []"
| "responseCodes (ErrorResponse code message # es) = code # responseCodes es"
| "responseCodes (JsonResponse code data # es) = code # responseCodes es"
| "responseCodes (e # es) = responseCodes es"

text \<open>The events from the first error response on.\<close>

definition fromFirstError :: "event list \<Rightarrow> event list" where
  "fromFirstError es = dropWhile (\<lambda>e. \<not> isErrorResponse e) es"

subsection \<open>Stamping modification metadata\<close>

text \<open>
  \<open>utils.GetMillis\<close> reads the wall clock. The clock is the stream of the values that
  successive reads return; a read takes the head and leaves the tail.
\<close>

type_synonym clock = "int stream"

definition GetMillis :: "clock \<Rightarrow> int \<times> clock" where
  "GetMillis c = (shd c, stl c)"

text \<open>\<open>strconv.FormatInt(int64(i), 10)\<close> for a slice index: the decimal digits of \<open>i\<close>.\<close>

definition digitChar :: "nat \<Rightarrow> char" where
  "digitChar d = char_of (of_char (CHR ''0'') + d)"

fun FormatInt :: "nat \<Rightarrow> string" where
  "FormatInt n = (if n < 10 then [digitChar n] else FormatInt (n div 10) @ [digitChar (n mod 10)])"

text \<open>
  The loop of \<open>stampModificationMetadata\<close>, with the index \<open>i\<close> of the next block: the
  actor and the timestamp are written into the block, and when an audit record is given
  the stamped block is recorded in it under the key \<open>block_i\<close>.
\<close>

fun stampBlocks ::
  "string \<Rightarrow> int \<Rightarrow> nat \<Rightarrow> block list \<Rightarrow> auditRecord option \<Rightarrow> block list \<times> auditRecord option"
where
  "stampBlocks userID now i [] auditRec = ([], auditRec)"
| "stampBlocks userID now i (b # bs) auditRec =
     (let b' = b\<lparr>block_ModifiedBy := userID, block_UpdateAt := now\<rparr>;
          auditRec' = (case auditRec of
                         None \<Rightarrow> None
                       | Some a \<Rightarrow> Some (AddMeta a (''block_'' @ FormatInt i) (MetaBlock b')));
          (bs', auditRec'') = stampBlocks userID now (Suc i) bs auditRec'
      in (b' # bs', auditRec''))"

definition stampModificationMetadata ::
  "request \<Rightarrow> block list \<Rightarrow> auditRecord option \<Rightarrow> clock
     \<Rightarrow> block list \<times> auditRecord option \<times> clock"
where
  "stampModificationMetadata r blocks auditRec c =
     (let userID = getUserID r;
          userID = (if userID = SingleUser then [] else userID);
          (now, c') = GetMillis c;
          (blocks', auditRec') = stampBlocks userID now 0 blocks auditRec
      in (blocks', auditRec', c'))"

subsection \<open>Subtree and import\<close>

text \<open>
  \<open>strconv.ParseInt(s, 10, 32)\<close> of the Go standard library, after its documentation: an
  optional sign followed by one or more decimal digits, and nothing else; the value must
  fit a signed 32-bit integer. The handler only tests whether an error came back, so a
  syntax error and a range error are both \<open>None\<close>.
\<close>

definition isDigit :: "char \<Rightarrow> bool" where
  "isDigit c = (of_char (CHR ''0'') \<le> (of_char c :: nat) \<and> (of_char c :: nat) \<le> of_char (CHR ''9''))"

definition digitsValue :: "string \<Rightarrow> nat" where
  "digitsValue s = foldl (\<lambda>n c. 10 * n + (of_char c - of_char (CHR ''0''))) 0 s"

definition ParseUint :: "string \<Rightarrow> nat option" where
  "ParseUint s = (if s = [] \<or> \<not> list_all isDigit s then None else Some (digitsValue s))"

definition ParseInt :: "string \<Rightarrow> int option" where
  "ParseInt s =
     (case s of
        [] \<Rightarrow> None
      | c # cs \<Rightarrow>
          (let neg = (c = CHR ''-'');
               ds = (if c = CHR ''+'' \<or> c = CHR ''-'' then cs else s)
           in case ParseUint ds of
                None \<Rightarrow> None
              | Some un \<Rightarrow>
                  if \<not> neg \<and> un \<ge> 2 ^ 31 then None
                  else if neg \<and> un > 2 ^ 31 then None
                  else Some (if neg then - int un else int un)))"

definition hasValidReadTokenForBoard :: "env \<Rightarrow> request \<Rightarrow> string \<Rightarrow> event list \<times> bool" where
  "hasValidReadTokenForBoard env r boardID =
     (let readToken = queryGet r ''read_token'' in
      if length readToken < 1 then ([], False)
      else ([IsValidReadToken boardID readToken],
            (case app_IsValidReadToken env boardID readToken of
               Inl err \<Rightarrow> False
             | Inr isValid \<Rightarrow> isValid)))"

text \<open>
  The access check of \<open>handleGetSubTree\<close>: the permission service is asked only when the
  read token is not valid (\<open>&&\<close> evaluates its right operand only then).
\<close>

definition subTreeAccess :: "env \<Rightarrow> request \<Rightarrow> event list \<times> bool" where
  "subTreeAccess env r =
     (let userID = getUserID r; boardID = req_Vars r ''boardID'';
          (tokenEvents, tokenValid) = hasValidReadTokenForBoard env r boardID
      in if tokenValid then (tokenEvents, True)
         else (tokenEvents @ [HasPermissionToBoard userID boardID PermissionViewBoard],
               perm_HasPermissionToBoard env userID boardID PermissionViewBoard))"

definition subTreeLevels :: "request \<Rightarrow> int" where
  "subTreeLevels r = (case ParseInt (queryGet r ''l'') of None \<Rightarrow> 2 | Some levels \<Rightarrow> levels)"

definition subTreeFetch :: "env \<Rightarrow> request \<Rightarrow> int \<Rightarrow> event list" where
  "subTreeFetch env r levels =
     (let boardID = req_Vars r ''boardID''; blockID = req_Vars r ''blockID'';
          auditRec = AddMeta (AddMeta (makeAuditRecord r ''getSubTree'' audit_Fail)
                       ''boardID'' (MetaString boardID)) ''blockID'' (MetaString blockID)
      in GetSubTree boardID blockID levels #
         (case app_GetSubTree env boardID blockID levels of
            Inl err \<Rightarrow> [ErrorResponse 500 [], LogRecord LevelRead auditRec]
          | Inr blocks \<Rightarrow>
              (case json_MarshalBlocks env blocks of
                 Inl err \<Rightarrow> [ErrorResponse 500 [], LogRecord LevelRead auditRec]
               | Inr json \<Rightarrow>
                   [JsonResponse 200 json,
                    LogRecord LevelRead
                      (Success (AddMeta auditRec ''blockCount'' (MetaInt (int (length blocks)))))])))"

definition handleGetSubTree :: "env \<Rightarrow> request \<Rightarrow> event list" where
  "handleGetSubTree env r =
     (let (accessEvents, granted) = subTreeAccess env r in
      if \<not> granted then accessEvents @ [ErrorResponse 403 []]
      else (let levels = subTreeLevels r in
            if levels \<noteq> 2 \<and> levels \<noteq> 3 then accessEvents @ [ErrorResponse 400 ''invalid levels'']
            else accessEvents @ subTreeFetch env r levels))"

text \<open>
  \<open>handleImport\<close>. The blocks are decoded into a slice, so a \<open>null\<close> body is the empty
  list. Every block's board identifier is overwritten with the one of the URL, the blocks
  are stamped, and the result of \<open>GenerateBlockIDs\<close> on them is inserted.
\<close>

definition importBlocks :: "env \<Rightarrow> request \<Rightarrow> block list \<Rightarrow> clock \<Rightarrow> event list \<times> clock" where
  "importBlocks env r blocks c =
     (let userID = getUserID r; boardID = req_Vars r ''boardID'';
          auditRec = AddMeta (makeAuditRecord r ''import'' audit_Fail) ''boardID'' (MetaString boardID);
          blocks = map (\<lambda>b. b\<lparr>block_BoardID := boardID\<rparr>) blocks;
          (blocks, auditRec', c') = stampModificationMetadata r blocks (Some auditRec) c;
          auditRec = (case auditRec' of None \<Rightarrow> auditRec | Some a \<Rightarrow> a);
          inserted = GenerateBlockIDs (utils_NewID env) blocks
      in (InsertBlocks inserted userID False #
          (case app_InsertBlocks env inserted userID False of
             Inl err \<Rightarrow> [ErrorResponse 500 [], LogRecord LevelModify auditRec]
           | Inr result \<Rightarrow>
               [JsonResponse 200 ''{}'',
                LogRecord LevelModify
                  (Success (AddMeta auditRec ''blockCount'' (MetaInt (int (length blocks)))))]),
          c'))"


subsection \<open>Creating boards and blocks\<close>

text \<open>The structural check of the submitted blocks; the result is the message of the error response.\<close>

fun checkBlocks :: "block list \<Rightarrow> string option" where
  "checkBlocks [] = None"
| "checkBlocks (block # blocks) =
     (if length (block_Type block) < 1
        then Some (''missing type for block id '' @ block_ID block)
      else if block_CreateAt block < 1
        then Some (''invalid createAt for block id '' @ block_ID block)
      else if block_UpdateAt block < 1
        then Some (''invalid UpdateAt for block id '' @ block_ID block)
      else checkBlocks blocks)"

text \<open>
  The loop over the submitted boards, with the flags and the team identifier gathered so
  far. A board met while the team identifier is still empty sets it and is not examined
  further (\<open>continue\<close>).
\<close>

fun checkBoards :: "board list \<Rightarrow> bool \<Rightarrow> bool \<Rightarrow> string \<Rightarrow> string + bool \<times> bool \<times> string" where
  "checkBoards [] createsPublicBoards createsPrivateBoards teamID =
     Inr (createsPublicBoards, createsPrivateBoards, teamID)"
| "checkBoards (board # boards) createsPublicBoards createsPrivateBoards teamID =
     (let createsPublicBoards = (if board_Type board = BoardTypeOpen then True else createsPublicBoards);
          createsPrivateBoards = (if board_Type board = BoardTypePrivate then True else createsPrivateBoards)
      in if teamID = [] then checkBoards boards createsPublicBoards createsPrivateBoards (board_TeamID board)
         else if teamID \<noteq> board_TeamID board then Inl ''cannot create boards for multiple teams''
         else if board_ID board = [] then Inl ''boards need an ID to be referenced from the blocks''
         else checkBoards boards createsPublicBoards createsPrivateBoards teamID)"

definition createCommit :: "env \<Rightarrow> request \<Rightarrow> string \<Rightarrow> boardsAndBlocks \<Rightarrow> event list" where
  "createCommit env r teamID newBab =
     (let userID = getUserID r;
          auditRec = AddMeta (AddMeta (AddMeta (AddMeta
                       (makeAuditRecord r ''createBoardsAndBlocks'' audit_Fail)
                       ''teamID'' (MetaString teamID))
                       ''userID'' (MetaString userID))
                       ''boardsCount'' (MetaInt (int (length (bab_Boards newBab)))))
                       ''blocksCount'' (MetaInt (int (length (bab_Blocks newBab))))
      in CreateBoardsAndBlocks newBab userID True #
         (case app_CreateBoardsAndBlocks env newBab userID True of
            Inl err \<Rightarrow> [ErrorResponse 500 [], LogRecord LevelModify auditRec]
          | Inr bab \<Rightarrow>
              (case json_MarshalBoardsAndBlocks env bab of
                 Inl err \<Rightarrow> [ErrorResponse 500 [], LogRecord LevelModify auditRec]
               | Inr data \<Rightarrow> [JsonResponse 200 data, LogRecord LevelModify (Success auditRec)])))"

definition createPrivateCheck ::
  "env \<Rightarrow> request \<Rightarrow> string \<Rightarrow> bool \<Rightarrow> boardsAndBlocks \<Rightarrow> event list"
where
  "createPrivateCheck env r teamID createsPrivateBoards newBab =
     (if createsPrivateBoards then
        HasPermissionToTeam (getUserID r) teamID PermissionCreatePrivateChannel #
        (if \<not> perm_HasPermissionToTeam env (getUserID r) teamID PermissionCreatePrivateChannel
         then [ErrorResponse 403 []]
         else createCommit env r teamID newBab)
      else createCommit env r teamID newBab)"

definition createPublicCheck ::
  "env \<Rightarrow> request \<Rightarrow> string \<Rightarrow> bool \<Rightarrow> bool \<Rightarrow> boardsAndBlocks \<Rightarrow> event list"
where
  "createPublicCheck env r teamID createsPublicBoards createsPrivateBoards newBab =
     (if createsPublicBoards then
        HasPermissionToTeam (getUserID r) teamID PermissionCreatePublicChannel #
        (if \<not> perm_HasPermissionToTeam env (getUserID r) teamID PermissionCreatePublicChannel
         then [ErrorResponse 403 []]
         else createPrivateCheck env r teamID createsPrivateBoards newBab)
      else createPrivateCheck env r teamID createsPrivateBoards newBab)"

definition handleCreateBoardsAndBlocks ::
  "env \<Rightarrow> request \<Rightarrow> boardsAndBlocks body \<Rightarrow> event list"
where
  "handleCreateBoardsAndBlocks env r requestBody =
     (case requestBody of
        Unreadable \<Rightarrow> [ErrorResponse 500 []]
      | Malformed \<Rightarrow> [ErrorResponse 400 []]
      | Null \<Rightarrow> [Panic]
      | Decoded newBab \<Rightarrow>
          (case checkBlocks (bab_Blocks newBab) of
             Some message \<Rightarrow> [ErrorResponse 400 message]
           | None \<Rightarrow>
               (case checkBoards (bab_Boards newBab) False False [] of
                  Inl message \<Rightarrow> [ErrorResponse 400 message]
                | Inr (createsPublicBoards, createsPrivateBoards, teamID) \<Rightarrow>
                    GenerateBoardsAndBlocksIDs newBab #
                    (case model_GenerateBoardsAndBlocksIDs env newBab of
                       Inl err \<Rightarrow> [ErrorResponse 400 []]
                     | Inr newBab' \<Rightarrow>
                         createPublicCheck env r teamID createsPublicBoards
                           createsPrivateBoards newBab'))))"

subsection \<open>Patching boards and blocks\<close>

text \<open>The two permission checks made for one board of a patch set.\<close>

definition patchBoardPermissions :: "env \<Rightarrow> string \<Rightarrow> string \<Rightarrow> boardPatch \<Rightarrow> unit part" where
  "patchBoardPermissions env userID boardID patch =
     emit [HasPermissionToBoard userID boardID PermissionManageBoardProperties]
       (if \<not> perm_HasPermissionToBoard env userID boardID PermissionManageBoardProperties
        then ([ErrorResponse 403 []], None)
        else (case patch_Type patch of
                None \<Rightarrow> ([], Some ())
              | Some t \<Rightarrow>
                  emit [HasPermissionToBoard userID boardID PermissionManageBoardType]
                    (if \<not> perm_HasPermissionToBoard env userID boardID PermissionManageBoardType
                     then ([ErrorResponse 403 []], None)
                     else ([], Some ()))))"

text \<open>
  Fetching a targeted board and comparing its team with the team identifier gathered so
  far; the part continues with the team identifier.
\<close>

definition boardTeam :: "env \<Rightarrow> string \<Rightarrow> string \<Rightarrow> string part" where
  "boardTeam env boardID teamID =
     emit [GetBoard boardID]
       (case app_GetBoard env boardID of
          Inl err \<Rightarrow> ([ErrorResponse 500 []], None)
        | Inr None \<Rightarrow> ([ErrorResponse 400 []], None)
        | Inr (Some board) \<Rightarrow>
            (let teamID = (if teamID = [] then board_TeamID board else teamID) in
             if teamID \<noteq> board_TeamID board then ([ErrorResponse 400 []], None)
             else ([], Some teamID)))"

text \<open>
  The loop over the board identifiers of a patch set. The patch of the board at index
  \<open>i\<close> is read from the patch list at the same index, so the two lists are walked
  together; an index beyond the patch list panics.
\<close>

fun patchBoards ::
  "env \<Rightarrow> string \<Rightarrow> string list \<Rightarrow> boardPatch list \<Rightarrow> string \<Rightarrow> (string \<rightharpoonup> bool)
     \<Rightarrow> (string \<rightharpoonup> bool) part"
where
  "patchBoards env userID [] patches teamID boardIDMap = ([], Some boardIDMap)"
| "patchBoards env userID (boardID # boardIDs) [] teamID boardIDMap = ([Panic], None)"
| "patchBoards env userID (boardID # boardIDs) (patch # patches) teamID boardIDMap =
     (case patch_IsValid env patch of
        Some err \<Rightarrow> ([ErrorResponse 400 []], None)
      | None \<Rightarrow>
          (case patchBoardPermissions env userID boardID patch of
             (es1, None) \<Rightarrow> (es1, None)
           | (es1, Some u) \<Rightarrow>
               (case boardTeam env boardID teamID of
                  (es2, None) \<Rightarrow> (es1 @ es2, None)
                | (es2, Some teamID') \<Rightarrow>
                    emit (es1 @ es2)
                      (patchBoards env userID boardIDs patches teamID'
                         (boardIDMap(boardID \<mapsto> True))))))"

fun patchBlocks :: "env \<Rightarrow> string list \<Rightarrow> (string \<rightharpoonup> bool) \<Rightarrow> unit part" where
  "patchBlocks env [] boardIDMap = ([], Some ())"
| "patchBlocks env (blockID # blockIDs) boardIDMap =
     emit [GetBlockWithID blockID]
       (case app_GetBlockWithID env blockID of
          Inl err \<Rightarrow> ([ErrorResponse 500 []], None)
        | Inr None \<Rightarrow> ([ErrorResponse 400 []], None)
        | Inr (Some block) \<Rightarrow>
            (case boardIDMap (block_BoardID block) of
               None \<Rightarrow> ([ErrorResponse 400 []], None)
             | Some ok \<Rightarrow> patchBlocks env blockIDs boardIDMap))"

definition patchCommit :: "env \<Rightarrow> request \<Rightarrow> patchBoardsAndBlocks \<Rightarrow> event list" where
  "patchCommit env r pbab =
     (let userID = getUserID r;
          auditRec = AddMeta (AddMeta (makeAuditRecord r ''patchBoardsAndBlocks'' audit_Fail)
                       ''boardsCount'' (MetaInt (int (length (pbab_BoardIDs pbab)))))
                       ''blocksCount'' (MetaInt (int (length (pbab_BlockIDs pbab))))
      in PatchBoardsAndBlocks pbab userID #
         (case app_PatchBoardsAndBlocks env pbab userID of
            Inl err \<Rightarrow> [ErrorResponse 500 [], LogRecord LevelModify auditRec]
          | Inr bab \<Rightarrow>
              (case json_MarshalBoardsAndBlocks env bab of
                 Inl err \<Rightarrow> [ErrorResponse 500 [], LogRecord LevelModify auditRec]
               | Inr data \<Rightarrow> [JsonResponse 200 data, LogRecord LevelModify (Success auditRec)])))"

text \<open>
  \<open>handlePatchBoardsAndBlocks\<close>. A \<open>null\<close> body leaves the patch set a nil pointer, whose
  fields the validation and the loop read.
\<close>

definition handlePatchBoardsAndBlocks ::
  "env \<Rightarrow> request \<Rightarrow> patchBoardsAndBlocks body \<Rightarrow> event list"
where
  "handlePatchBoardsAndBlocks env r requestBody =
     (case requestBody of
        Unreadable \<Rightarrow> [ErrorResponse 500 []]
      | Malformed \<Rightarrow> [ErrorResponse 400 []]
      | Null \<Rightarrow> [Panic]
      | Decoded pbab \<Rightarrow>
          (case pbab_IsValid env pbab of
             Some err \<Rightarrow> [ErrorResponse 400 []]
           | None \<Rightarrow>
               (case patchBoards env (getUserID r) (pbab_BoardIDs pbab) (pbab_BoardPatches pbab)
                       [] Map.empty of
                  (es1, None) \<Rightarrow> es1
                | (es1, Some boardIDMap) \<Rightarrow>
                    (case patchBlocks env (pbab_BlockIDs pbab) boardIDMap of
                       (es2, None) \<Rightarrow> es1 @ es2
                     | (es2, Some u) \<Rightarrow> es1 @ es2 @ patchCommit env r pbab))))"

subsection \<open>Deleting boards and blocks\<close>




subsection \<open>Auxiliary notions for the proofs\<close>


text \<open>
  The shapes of a handler's trace. An event is quiet when it is neither a response, nor a
  call that commits a composite mutation, nor an audit record, nor a panic. A rejected
  run is a sequence of quiet events closed by an error response or a panic. A committed
  run is a sequence of quiet events followed by the committing call, the response and the
  audit record, whose status matches the response. A part of a handler is well formed
  when its events are quiet if the handler goes on, and a rejected run if it has
  returned.
\<close>

definition quiet :: "event \<Rightarrow> bool" where
  "quiet e = (\<not> isResponse e \<and> \<not> isCommit e \<and> \<not> isLogRecord e \<and> e \<noteq> Panic)"

fun isFailure :: "event \<Rightarrow> bool" where
  "isFailure (ErrorResponse code message) = (code \<noteq> 200)"
| "isFailure Panic = True"
| "isFailure e = False"

definition rejectedRun :: "event list \<Rightarrow> bool" where
  "rejectedRun t = (t \<noteq> [] \<and> list_all quiet (butlast t) \<and> isFailure (last t))"

fun outcomeMatches :: "event \<Rightarrow> auditStatus \<Rightarrow> bool" where
  "outcomeMatches (JsonResponse code data) status = (code = 200 \<and> status = audit_Success)"
| "outcomeMatches (ErrorResponse code message) status = (code \<noteq> 200 \<and> status = audit_Fail)"
| "outcomeMatches e status = False"

fun committedRev :: "event list \<Rightarrow> bool" where
  "committedRev (LogRecord level auditRec # x # c # pre) =
     (level = LevelModify \<and> isCommit c \<and> list_all quiet pre \<and>
      outcomeMatches x (rec_Status auditRec))"
| "committedRev es = False"

definition committedRun :: "event list \<Rightarrow> bool" where
  "committedRun t = committedRev (rev t)"

definition wellFormedPart :: "'a part \<Rightarrow> bool" where
  "wellFormedPart p = (case snd p of Some x \<Rightarrow> list_all quiet (fst p) | None \<Rightarrow> rejectedRun (fst p))"





subsection \<open>The composite mutation handlers together\<close>


subsection \<open>Sample collaborators and requests for the worked examples\<close>

text \<open>
  A permissive environment: every permission is granted, the store holds one board
  \<open>board\<close> of team \<open>team\<close>, the block \<open>A\<close> on that board and the block \<open>X\<close> on another
  board, every validation passes, the resolution of a bundle of boards and blocks leaves
  it unchanged, a new identifier is its placeholder with the prefix \<open>new-\<close>, and
  every write succeeds.
\<close>

definition sampleBoard :: "string \<Rightarrow> string \<Rightarrow> board" where
  "sampleBoard i t =
     \<lparr>board_ID = i, board_TeamID = t, board_Type = BoardTypeOpen, board_Properties = []\<rparr>"

definition sampleEnv :: env where
  "sampleEnv =
     \<lparr>perm_HasPermissionToTeam = (\<lambda>userID teamID p. True),
      perm_HasPermissionToBoard = (\<lambda>userID boardID p. True),
      app_IsValidReadToken = (\<lambda>boardID token. Inr False),
      app_GetBoard = (\<lambda>boardID. if boardID = ''board'' then Inr (Some (sampleBoard ''board'' ''team''))
                                  else Inr None),
      app_GetBlockWithID = (\<lambda>blockID. if blockID = ''A'' then Inr (Some (sampleBlock ''A'' [] ''t''))
                                  else if blockID = ''X''
                                    then Inr (Some ((sampleBlock ''X'' [] ''t'')\<lparr>block_BoardID := ''other''\<rparr>))
                                  else Inr None),
      app_GetSubTree = (\<lambda>boardID blockID levels. Inr []),
      app_InsertBlocks = (\<lambda>blocks userID b. Inr blocks),
      app_CreateBoardsAndBlocks = (\<lambda>bab userID b. Inr bab),
      app_PatchBoardsAndBlocks = (\<lambda>pbab userID. Inr \<lparr>bab_Boards = [], bab_Blocks = []\<rparr>),
      app_DeleteBoardsAndBlocks = (\<lambda>dbab userID. None),
      model_GenerateBoardsAndBlocksIDs = (\<lambda>bab. Inr bab),
      utils_NewID = (\<lambda>placeholder. ''new-'' @ placeholder),
      pbab_IsValid = (\<lambda>pbab. None),
      patch_IsValid = (\<lambda>patch. None),
      dbab_IsValid = (\<lambda>dbab. None),
      json_MarshalBoardsAndBlocks = (\<lambda>bab. Inr ''{}''),
      json_MarshalBlocks = (\<lambda>blocks. Inr ''[]'')\<rparr>"

text \<open>The same environment with a permission service that denies everything.\<close>

definition denyingEnv :: env where
  "denyingEnv = sampleEnv\<lparr>perm_HasPermissionToTeam := (\<lambda>userID teamID p. False),
                          perm_HasPermissionToBoard := (\<lambda>userID boardID p. False)\<rparr>"

text \<open>
  A request of the user \<open>user1\<close> on the board \<open>board\<close> and the block \<open>A\<close>, with the given
  value of the query parameter \<open>l\<close> (no value when the list is empty).
\<close>

definition sampleRequest :: "string \<Rightarrow> string list \<Rightarrow> request" where
  "sampleRequest userID l =
     \<lparr>req_Session = Some userID,
      req_Vars = (\<lambda>k. if k = ''boardID'' then ''board'' else if k = ''blockID'' then ''A'' else []),
      req_Query = (\<lambda>k. if k = ''l'' then l else [])\<rparr>"

text \<open>A patch set and a delete set over the given identifiers, with empty patches.\<close>

definition samplePatchSet :: "string list \<Rightarrow> string list \<Rightarrow> patchBoardsAndBlocks" where
  "samplePatchSet boardIDs blockIDs =
     \<lparr>pbab_BoardIDs = boardIDs,
      pbab_BoardPatches = map (\<lambda>b. \<lparr>patch_Type = None, patch_Properties = []\<rparr>) boardIDs,
      pbab_BlockIDs = blockIDs,
      pbab_BlockPatches = map (\<lambda>b. []) blockIDs\<rparr>"




section \<open>Properties of the orphan filter\<close>

subsection \<open>The queue loop\<close>

lemma mapTrees_Nil: "mapTrees ch [] out = Some out"
  by (subst mapTrees.simps) simp

lemma mapTrees_Cons:
  "mapTrees ch (b # rest) out = mapTrees ch (rest @ kids ch b) (out @ [b])"
  by (subst mapTrees.simps) (simp add: kids_def split: option.split)

lemma mapTrees_append:
  "mapTrees ch (q1 @ q2) out = mapTrees ch (q2 @ concat (map (kids ch) q1)) (out @ q1)"
proof (induction q1 arbitrary: q2 out)
  case Nil
  show ?case by simp
next
  case (Cons b q1)
  have "mapTrees ch ((b # q1) @ q2) out = mapTrees ch (q1 @ (q2 @ kids ch b)) (out @ [b])"
    by (simp add: mapTrees_Cons)
  also have "\<dots> = mapTrees ch ((q2 @ kids ch b) @ concat (map (kids ch) q1)) ((out @ [b]) @ q1)"
    by (rule Cons.IH)
  finally show ?case by simp
qed

lemma mapTrees_levels:
  "mapTrees ch q out =
     mapTrees ch (queueLevel ch q n) (out @ concat (map (queueLevel ch q) [0..<n]))"
proof (induction n)
  case 0
  show ?case by simp
next
  case (Suc n)
  have "mapTrees ch (queueLevel ch q n @ []) (out @ concat (map (queueLevel ch q) [0..<n])) =
        mapTrees ch ([] @ concat (map (kids ch) (queueLevel ch q n)))
          ((out @ concat (map (queueLevel ch q) [0..<n])) @ queueLevel ch q n)"
    by (rule mapTrees_append)
  with Suc show ?case by simp
qed

lemma mapTrees_returns:
  assumes "queueLevel ch q n = []"
  shows "mapTrees ch q out = Some (out @ concat (map (queueLevel ch q) [0..<n]))"
  using mapTrees_levels [of ch q out n] assms by (simp add: mapTrees_Nil)

subsection \<open>The tree-building loop\<close>

lemma buildTrees_queue:
  "fst (buildTrees bs q ch) = q @ rootBlocks bs"
  by (induction bs arbitrary: q ch) (auto simp: rootBlocks_def split: option.split)

lemma kids_upd_Some:
  "ch k = Some s \<Longrightarrow>
     kids (ch(k \<mapsto> s @ [b])) p = kids ch p @ (if block_ID p = k then [b] else [])"
  by (simp add: kids_def)

lemma kids_upd_None:
  "ch k = None \<Longrightarrow>
     kids (ch(k \<mapsto> [b])) p = kids ch p @ (if block_ID p = k then [b] else [])"
  by (simp add: kids_def)

lemma buildTrees_children:
  "kids (snd (buildTrees bs q ch)) p = kids ch p @ childBlocks bs p"
proof (induction bs arbitrary: q ch)
  case Nil
  show ?case by (simp add: childBlocks_def)
next
  case (Cons b bs)
  show ?case
  proof (cases "block_ParentID b = []")
    case True
    then show ?thesis using Cons.IH [of "q @ [b]" ch] by (simp add: childBlocks_def)
  next
    case False
    show ?thesis
    proof (cases "ch (block_ParentID b)")
      case None
      let ?ch = "ch(block_ParentID b \<mapsto> [b])"
      have "kids (snd (buildTrees (b # bs) q ch)) p = kids (snd (buildTrees bs q ?ch)) p"
        using False None by simp
      also have "\<dots> = kids ?ch p @ childBlocks bs p"
        by (rule Cons.IH)
      also have "kids ?ch p = kids ch p @ (if block_ID p = block_ParentID b then [b] else [])"
        using None by (rule kids_upd_None)
      finally show ?thesis using False by (auto simp: childBlocks_def)
    next
      case (Some s)
      let ?ch = "ch(block_ParentID b \<mapsto> s @ [b])"
      have "kids (snd (buildTrees (b # bs) q ch)) p = kids (snd (buildTrees bs q ?ch)) p"
        using False Some by simp
      also have "\<dots> = kids ?ch p @ childBlocks bs p"
        by (rule Cons.IH)
      also have "kids ?ch p = kids ch p @ (if block_ID p = block_ParentID b then [b] else [])"
        using Some by (rule kids_upd_Some)
      finally show ?thesis using False by (auto simp: childBlocks_def)
    qed
  qed
qed

lemma kids_buildTrees:
  "kids (snd (buildTrees blocks [] Map.empty)) = childBlocks blocks"
  by (rule ext) (simp add: buildTrees_children, simp add: kids_def)

lemma queueLevel_bfsLevel:
  "queueLevel (snd (buildTrees blocks [] Map.empty)) (fst (buildTrees blocks [] Map.empty)) n
     = bfsLevel blocks n"
  by (induction n) (simp_all add: buildTrees_queue kids_buildTrees)

lemma filterOrphanBlocks_returns:
  assumes "bfsLevel blocks N = []"
  shows "filterOrphanBlocks blocks = Some (breadthFirst blocks N)"
proof -
  obtain q ch where qc: "buildTrees blocks [] Map.empty = (q, ch)"
    by (cases "buildTrees blocks [] Map.empty")
  have lv: "queueLevel ch q = bfsLevel blocks"
    using queueLevel_bfsLevel [of blocks] qc by (intro ext) simp
  have "mapTrees ch q [] = Some ([] @ concat (map (queueLevel ch q) [0..<N]))"
    by (rule mapTrees_returns) (simp add: lv assms)
  then show ?thesis
    by (simp add: filterOrphanBlocks_def qc breadthFirst_def lv)
qed


subsection \<open>Levels under pairwise distinct identifiers\<close>

lemma bfsLevel_subset: "set (bfsLevel blocks n) \<subseteq> set blocks"
  by (induction n) (auto simp: rootBlocks_def childBlocks_def)

lemma bfsLevel_0_root: "b \<in> set (bfsLevel blocks 0) \<Longrightarrow> block_ParentID b = []"
  by (simp add: rootBlocks_def)

lemma bfsLevel_Suc_parent:
  assumes "c \<in> set (bfsLevel blocks (Suc n))"
  shows "\<exists>p \<in> set (bfsLevel blocks n). block_ParentID c \<noteq> [] \<and> block_ParentID c = block_ID p"
  using assms by (auto simp: childBlocks_def)

lemma same_ID_same_block:
  assumes "distinct (map block_ID blocks)" "p \<in> set blocks" "p' \<in> set blocks"
    "block_ID p = block_ID p'"
  shows "p = p'"
  using assms by (meson distinct_map inj_onD)

lemma bfsLevel_unique:
  assumes d: "distinct (map block_ID blocks)"
  shows "c \<in> set (bfsLevel blocks m) \<Longrightarrow> c \<in> set (bfsLevel blocks n) \<Longrightarrow> m = n"
proof (induction m arbitrary: n c)
  case 0
  show ?case
  proof (cases n)
    case 0
    then show ?thesis by simp
  next
    case (Suc k)
    with "0.prems" bfsLevel_Suc_parent [of c blocks k] bfsLevel_0_root [of c blocks]
    show ?thesis by auto
  qed
next
  case (Suc m)
  from Suc.prems(1) obtain p where p: "p \<in> set (bfsLevel blocks m)"
    "block_ParentID c \<noteq> []" "block_ParentID c = block_ID p"
    using bfsLevel_Suc_parent by blast
  show ?case
  proof (cases n)
    case 0
    with Suc.prems(2) p(2) bfsLevel_0_root [of c blocks] show ?thesis by simp
  next
    case (Suc k)
    with Suc.prems(2) obtain p' where p': "p' \<in> set (bfsLevel blocks k)"
      "block_ParentID c = block_ID p'"
      using bfsLevel_Suc_parent by blast
    have "p = p'"
      using d p(1) p'(1) p(3) p'(2) bfsLevel_subset same_ID_same_block
      by (metis subsetD)
    with p(1) p'(1) have "m = k" using Suc.IH by blast
    with Suc show ?thesis by simp
  qed
qed

lemma distinct_concat_map:
  assumes "distinct xs" "\<And>x. x \<in> set xs \<Longrightarrow> distinct (f x)"
    "\<And>x y. x \<in> set xs \<Longrightarrow> y \<in> set xs \<Longrightarrow> x \<noteq> y \<Longrightarrow> set (f x) \<inter> set (f y) = {}"
  shows "distinct (concat (map f xs))"
  using assms
proof (induction xs)
  case Nil
  show ?case by simp
next
  case (Cons x xs)
  have "distinct (concat (map f xs))"
    using Cons by simp
  moreover have "distinct (f x)" using Cons.prems(2) by simp
  moreover have "set (f x) \<inter> set (f y) = {}" if "y \<in> set xs" for y
  proof (rule Cons.prems(3))
    show "x \<in> set (x # xs)" by simp
    show "y \<in> set (x # xs)" using that by simp
    show "x \<noteq> y" using that Cons.prems(1) by auto
  qed
  ultimately show ?case by auto
qed

lemma childBlocks_disjoint:
  "block_ID p \<noteq> block_ID p' \<Longrightarrow> set (childBlocks blocks p) \<inter> set (childBlocks blocks p') = {}"
  by (auto simp: childBlocks_def)

lemma bfsLevel_distinct:
  assumes d: "distinct (map block_ID blocks)"
  shows "distinct (bfsLevel blocks n)"
proof (induction n)
  case 0
  from d have "distinct blocks" by (simp add: distinct_map)
  then show ?case by (simp add: rootBlocks_def)
next
  case (Suc n)
  from d have db: "distinct blocks" by (simp add: distinct_map)
  have "distinct (concat (map (childBlocks blocks) (bfsLevel blocks n)))"
  proof (rule distinct_concat_map)
    show "distinct (bfsLevel blocks n)" by (rule Suc)
    show "distinct (childBlocks blocks x)" for x using db by (simp add: childBlocks_def)
    show "set (childBlocks blocks x) \<inter> set (childBlocks blocks y) = {}"
      if "x \<in> set (bfsLevel blocks n)" "y \<in> set (bfsLevel blocks n)" "x \<noteq> y" for x y
    proof (rule childBlocks_disjoint)
      show "block_ID x \<noteq> block_ID y"
        using that d bfsLevel_subset same_ID_same_block by (metis subsetD)
    qed
  qed
  then show ?case by simp
qed

lemma set_breadthFirst: "set (breadthFirst blocks N) = (\<Union>n<N. set (bfsLevel blocks n))"
  by (auto simp: breadthFirst_def)

lemma breadthFirst_Suc: "breadthFirst blocks (Suc N) = breadthFirst blocks N @ bfsLevel blocks N"
  by (simp add: breadthFirst_def)

lemma breadthFirst_subset: "set (breadthFirst blocks N) \<subseteq> set blocks"
  using bfsLevel_subset by (auto simp: set_breadthFirst)

lemma breadthFirst_distinct:
  assumes d: "distinct (map block_ID blocks)"
  shows "distinct (breadthFirst blocks N)"
proof (induction N)
  case 0
  show ?case by (simp add: breadthFirst_def)
next
  case (Suc N)
  have "set (breadthFirst blocks N) \<inter> set (bfsLevel blocks N) = {}"
    using bfsLevel_unique [OF d] by (fastforce simp: set_breadthFirst)
  with Suc bfsLevel_distinct [OF d] show ?case by (simp add: breadthFirst_Suc)
qed

lemma breadthFirst_length:
  assumes "\<And>n. n < N \<Longrightarrow> bfsLevel blocks n \<noteq> []"
  shows "N \<le> length (breadthFirst blocks N)"
  using assms
proof (induction N)
  case 0
  show ?case by simp
next
  case (Suc N)
  have "N \<le> length (breadthFirst blocks N)" using Suc by simp
  moreover have "bfsLevel blocks N \<noteq> []" using Suc.prems by simp
  then have "0 < length (bfsLevel blocks N)" by simp
  ultimately have "Suc N \<le> length (breadthFirst blocks N) + length (bfsLevel blocks N)"
    by linarith
  then show ?case by (simp add: breadthFirst_Suc)
qed

lemma bfsLevel_empty_exists:
  assumes d: "distinct (map block_ID blocks)"
  shows "\<exists>N \<le> length blocks. bfsLevel blocks N = []"
proof (rule ccontr)
  assume "\<not> ?thesis"
  then have ne: "bfsLevel blocks n \<noteq> []" if "n < Suc (length blocks)" for n
    using that by auto
  have "Suc (length blocks) \<le> length (breadthFirst blocks (Suc (length blocks)))"
    by (rule breadthFirst_length) (rule ne)
  moreover have "length (breadthFirst blocks (Suc (length blocks))) \<le> length blocks"
  proof -
    have "length (breadthFirst blocks (Suc (length blocks)))
            = card (set (breadthFirst blocks (Suc (length blocks))))"
      using breadthFirst_distinct [OF d] by (simp add: distinct_card)
    also have "\<dots> \<le> card (set blocks)"
      by (rule card_mono) (simp_all add: breadthFirst_subset)
    also have "\<dots> \<le> length blocks" by (rule card_length)
    finally show ?thesis .
  qed
  ultimately show False by simp
qed


lemma breadthFirst_parent:
  assumes "b \<in> set (breadthFirst blocks N)"
  shows "block_ParentID b = [] \<or> block_ParentID b \<in> block_ID ` set (breadthFirst blocks N)"
proof -
  from assms obtain n where n: "n < N" "b \<in> set (bfsLevel blocks n)"
    by (auto simp: set_breadthFirst)
  show ?thesis
  proof (cases n)
    case 0
    with n(2) show ?thesis by (simp add: rootBlocks_def)
  next
    case (Suc m)
    with n(2) obtain p where p: "p \<in> set (bfsLevel blocks m)" "block_ParentID b = block_ID p"
      using bfsLevel_Suc_parent by blast
    from Suc n(1) have "m < N" by simp
    with p(1) have "p \<in> set (breadthFirst blocks N)" by (auto simp: set_breadthFirst)
    with p(2) show ?thesis by auto
  qed
qed

lemma breadthFirst_orphan:
  assumes "block_ParentID b \<noteq> []" "block_ParentID b \<notin> block_ID ` set blocks"
  shows "b \<notin> set (breadthFirst blocks N)"
proof
  assume "b \<in> set (breadthFirst blocks N)"
  then have "block_ParentID b \<in> block_ID ` set (breadthFirst blocks N)"
    using breadthFirst_parent assms(1) by blast
  then show False using assms(2) breadthFirst_subset by blast
qed

subsection \<open>Filtering a second time\<close>

lemma bfsLevel_empty_stays:
  "bfsLevel blocks N = [] \<Longrightarrow> bfsLevel blocks (N + k) = []"
  by (induction k) simp_all

lemma breadthFirst_segment:
  assumes "m < M"
  shows "\<exists>xs ys. breadthFirst blocks M = xs @ bfsLevel blocks m @ ys"
proof -
  have "[0..<M] = [0..<m] @ m # [Suc m..<M]"
    using assms by (metis less_imp_le_nat upt_add_eq_append upt_conv_Cons le_add_diff_inverse zero_le)
  then have "breadthFirst blocks M =
      concat (map (bfsLevel blocks) [0..<m]) @ bfsLevel blocks m
        @ concat (map (bfsLevel blocks) [Suc m..<M])"
    by (simp add: breadthFirst_def)
  then show ?thesis by blast
qed

lemma childBlocks_segment:
  assumes "p \<in> set (bfsLevel blocks n)"
  shows "\<exists>xs ys. bfsLevel blocks (Suc n) = xs @ childBlocks blocks p @ ys"
proof -
  from assms obtain us vs where "bfsLevel blocks n = us @ p # vs"
    by (meson split_list)
  then have "bfsLevel blocks (Suc n) =
      concat (map (childBlocks blocks) us) @ childBlocks blocks p
        @ concat (map (childBlocks blocks) vs)"
    by simp
  then show ?thesis by blast
qed

lemma breadthFirst_stable:
  assumes "bfsLevel blocks N = []"
  shows "breadthFirst blocks (Suc N) = breadthFirst blocks N"
  using assms by (simp add: breadthFirst_Suc)

lemma childBlocks_breadthFirst:
  assumes d: "distinct (map block_ID blocks)" and e: "bfsLevel blocks N = []"
    and p: "p \<in> set (breadthFirst blocks N)"
  shows "childBlocks (breadthFirst blocks N) p = childBlocks blocks p"
proof -
  let ?out = "breadthFirst blocks N"
  let ?P = "\<lambda>c. block_ParentID c \<noteq> [] \<and> block_ParentID c = block_ID p"
  from p obtain n where n: "n < N" "p \<in> set (bfsLevel blocks n)"
    by (auto simp: set_breadthFirst)
  obtain xs ys where l: "bfsLevel blocks (Suc n) = xs @ childBlocks blocks p @ ys"
    using childBlocks_segment [OF n(2)] by blast
  have "Suc n < Suc N" using n(1) by simp
  then obtain us vs where "breadthFirst blocks (Suc N) = us @ bfsLevel blocks (Suc n) @ vs"
    using breadthFirst_segment by blast
  then have o: "?out = (us @ xs) @ childBlocks blocks p @ (ys @ vs)"
    using l breadthFirst_stable [OF e] by simp
  have dist: "distinct ?out" by (rule breadthFirst_distinct [OF d])
  have none: "\<not> ?P c" if "c \<in> set (us @ xs) \<union> set (ys @ vs)" for c
  proof
    assume "?P c"
    moreover have "c \<in> set ?out" using that o by auto
    then have "c \<in> set blocks" using breadthFirst_subset by blast
    ultimately have "c \<in> set (childBlocks blocks p)" by (auto simp: childBlocks_def)
    with that dist o show False by auto
  qed
  have "filter ?P (us @ xs) = []" "filter ?P (ys @ vs) = []"
    using none by (auto simp: filter_empty_conv)
  moreover have "filter ?P (childBlocks blocks p) = childBlocks blocks p"
    by (simp add: childBlocks_def)
  ultimately have "filter ?P ?out = childBlocks blocks p"
    by (subst o) (simp only: filter_append append_Nil append_Nil2)
  then show ?thesis by (simp add: childBlocks_def)
qed

lemma rootBlocks_bfsLevel:
  "rootBlocks (bfsLevel blocks n) = (if n = 0 then rootBlocks blocks else [])"
proof (cases n)
  case 0
  then show ?thesis by (simp add: rootBlocks_def)
next
  case (Suc m)
  have "filter (\<lambda>b. block_ParentID b = []) (bfsLevel blocks (Suc m)) = []"
    using bfsLevel_Suc_parent [of _ blocks m] by (auto simp: filter_empty_conv)
  with Suc show ?thesis by (simp add: rootBlocks_def)
qed

lemma rootBlocks_append: "rootBlocks (xs @ ys) = rootBlocks xs @ rootBlocks ys"
  by (simp add: rootBlocks_def)

lemma rootBlocks_breadthFirst:
  "rootBlocks (breadthFirst blocks N) = (if N = 0 then [] else rootBlocks blocks)"
proof (induction N)
  case 0
  show ?case by (simp add: breadthFirst_def rootBlocks_def)
next
  case (Suc N)
  then show ?case
    by (simp add: breadthFirst_Suc rootBlocks_append rootBlocks_bfsLevel)
qed

lemma bfsLevel_breadthFirst:
  assumes d: "distinct (map block_ID blocks)" and e: "bfsLevel blocks N = []"
  shows "bfsLevel (breadthFirst blocks N) n = bfsLevel blocks n"
proof (induction n)
  case 0
  show ?case
  proof (cases N)
    case 0
    with e show ?thesis by (simp add: breadthFirst_def rootBlocks_def)
  next
    case (Suc k)
    then show ?thesis by (simp add: rootBlocks_breadthFirst)
  qed
next
  case (Suc n)
  have m: "map (childBlocks (breadthFirst blocks N)) (bfsLevel blocks n)
          = map (childBlocks blocks) (bfsLevel blocks n)"
  proof (rule map_cong [OF refl])
    fix p assume p: "p \<in> set (bfsLevel blocks n)"
    show "childBlocks (breadthFirst blocks N) p = childBlocks blocks p"
    proof (cases "n < N")
      case True
      with p have "p \<in> set (breadthFirst blocks N)" by (auto simp: set_breadthFirst)
      then show ?thesis by (rule childBlocks_breadthFirst [OF d e])
    next
      case False
      then have "bfsLevel blocks n = []"
        using bfsLevel_empty_stays [OF e, of "n - N"] by simp
      with p show ?thesis by simp
    qed
  qed
  show ?case by (simp only: bfsLevel.simps Suc m)
qed

lemma breadthFirst_ids_distinct:
  assumes d: "distinct (map block_ID blocks)"
  shows "distinct (map block_ID (breadthFirst blocks N))"
proof -
  have "inj_on block_ID (set blocks)" using d by (simp add: distinct_map)
  then have "inj_on block_ID (set (breadthFirst blocks N))"
    using breadthFirst_subset by (rule inj_on_subset)
  with breadthFirst_distinct [OF d] show ?thesis by (simp add: distinct_map)
qed

lemma filterOrphanBlocks_breadthFirst_fixed:
  assumes d: "distinct (map block_ID blocks)" and e: "bfsLevel blocks N = []"
  shows "filterOrphanBlocks (breadthFirst blocks N) = Some (breadthFirst blocks N)"
proof -
  let ?out = "breadthFirst blocks N"
  have lv: "bfsLevel ?out = bfsLevel blocks"
    by (rule ext) (rule bfsLevel_breadthFirst [OF d e])
  then have "bfsLevel ?out N = []" using e by simp
  then have "filterOrphanBlocks ?out = Some (breadthFirst ?out N)"
    by (rule filterOrphanBlocks_returns)
  also have "breadthFirst ?out N = ?out"
    by (simp add: breadthFirst_def [of ?out] lv) (simp add: breadthFirst_def)
  finally show ?thesis .
qed

subsection \<open>A run that does not return\<close>

lemma mapTrees_cycle_aux:
  assumes r: "mapTrees ch q out = Some y" and k: "ch k = Some [c]" "block_ID c = k"
  shows "\<forall>x. q = [x] \<longrightarrow> block_ID x \<noteq> k"
proof -
  have "ch k = Some [c] \<longrightarrow> (\<forall>x. q = [x] \<longrightarrow> block_ID x \<noteq> k)"
  proof (rule mapTrees.raw_induct
      [where P = "\<lambda>ch q out y. ch k = Some [c] \<longrightarrow> (\<forall>x. q = [x] \<longrightarrow> block_ID x \<noteq> k)",
        OF _ r], goal_cases)
    case (1 f ch q out y)
    show ?case
    proof (intro impI allI notI)
      fix x assume a: "ch k = Some [c]" "q = [x]" "block_ID x = k"
      with 1(2) have "f ch [c] (out @ [x]) = Some y" by simp
      from 1(1) [OF this] a(1) k(2) show False by simp
    qed
  qed
  with k(1) show ?thesis by simp
qed

lemma mapTrees_cycle:
  assumes "ch (block_ID b) = Some [c]" "block_ID c = block_ID b"
  shows "mapTrees ch [b] out = None"
proof (cases "mapTrees ch [b] out")
  case None
  then show ?thesis .
next
  case (Some y)
  from mapTrees_cycle_aux [OF Some, of "block_ID b" c] assms show ?thesis by simp
qed

lemma filterOrphanBlocks_cycle_diverges:
  "filterOrphanBlocks [sampleBlock ''A'' [] ''x'', sampleBlock ''A'' ''A'' ''y''] = None"
  by (simp add: filterOrphanBlocks_def sampleBlock_def mapTrees_cycle)

subsection \<open>Results on the orphan filter\<close>

text \<open>
  C1 (as amended). The empty input yields the empty output. For every input list whose
  block identifiers are pairwise distinct, \<open>filterOrphanBlocks\<close> returns; its result is
  the breadth-first traversal from the root blocks (all levels up to an empty one, which
  is reached within as many levels as there are blocks); the result has no duplicates and
  contains only blocks of the input; every block whose non-empty parent identifier
  belongs to no block of the input is dropped, and every block that is kept is a root or
  has its parent among the kept blocks. The result is a function of the input list, hence
  deterministic.
\<close>

theorem filterOrphanBlocks_breadth_first:
  "filterOrphanBlocks [] = Some [] \<and>
   (distinct (map block_ID blocks) \<longrightarrow>
     (\<exists>out N. filterOrphanBlocks blocks = Some out \<and> N \<le> length blocks \<and>
        bfsLevel blocks N = [] \<and> out = breadthFirst blocks N \<and>
        distinct out \<and> set out \<subseteq> set blocks \<and>
        (\<forall>b \<in> set blocks. block_ParentID b \<noteq> [] \<and> block_ParentID b \<notin> block_ID ` set blocks
            \<longrightarrow> b \<notin> set out) \<and>
        (\<forall>b \<in> set out. block_ParentID b = [] \<or> block_ParentID b \<in> block_ID ` set out)))"
proof (intro conjI impI)
  show "filterOrphanBlocks [] = Some []"
    by (simp add: filterOrphanBlocks_def mapTrees_Nil)
next
  assume d: "distinct (map block_ID blocks)"
  from bfsLevel_empty_exists [OF d] obtain N where
    N: "N \<le> length blocks" "bfsLevel blocks N = []" by blast
  let ?out = "breadthFirst blocks N"
  have "filterOrphanBlocks blocks = Some ?out"
    using N(2) by (rule filterOrphanBlocks_returns)
  moreover have "distinct ?out" by (rule breadthFirst_distinct [OF d])
  moreover have "set ?out \<subseteq> set blocks" by (rule breadthFirst_subset)
  moreover have "\<forall>b \<in> set blocks. block_ParentID b \<noteq> [] \<and>
      block_ParentID b \<notin> block_ID ` set blocks \<longrightarrow> b \<notin> set ?out"
    using breadthFirst_orphan by blast
  moreover have "\<forall>b \<in> set ?out. block_ParentID b = [] \<or> block_ParentID b \<in> block_ID ` set ?out"
    using breadthFirst_parent by blast
  ultimately show "\<exists>out N. filterOrphanBlocks blocks = Some out \<and> N \<le> length blocks \<and>
        bfsLevel blocks N = [] \<and> out = breadthFirst blocks N \<and>
        distinct out \<and> set out \<subseteq> set blocks \<and>
        (\<forall>b \<in> set blocks. block_ParentID b \<noteq> [] \<and> block_ParentID b \<notin> block_ID ` set blocks
            \<longrightarrow> b \<notin> set out) \<and>
        (\<forall>b \<in> set out. block_ParentID b = [] \<or> block_ParentID b \<in> block_ID ` set out)"
    using N by blast
qed

text \<open>
  The example of the specification: A is a root, B is a child of A, and the parent Z of C
  is absent; the result is A, B.
\<close>

theorem filterOrphanBlocks_breadth_first_witness:
  "distinct (map block_ID
      [sampleBlock ''A'' [] ''t'', sampleBlock ''B'' ''A'' ''t'', sampleBlock ''C'' ''Z'' ''t'']) \<and>
   filterOrphanBlocks
      [sampleBlock ''A'' [] ''t'', sampleBlock ''B'' ''A'' ''t'', sampleBlock ''C'' ''Z'' ''t'']
     = Some [sampleBlock ''A'' [] ''t'', sampleBlock ''B'' ''A'' ''t''] \<and>
   (\<exists>N. N \<le> 3 \<and>
      [sampleBlock ''A'' [] ''t'', sampleBlock ''B'' ''A'' ''t''] =
        breadthFirst
          [sampleBlock ''A'' [] ''t'', sampleBlock ''B'' ''A'' ''t'', sampleBlock ''C'' ''Z'' ''t''] N)"
proof -
  let ?ex = "[sampleBlock ''A'' [] ''t'', sampleBlock ''B'' ''A'' ''t'', sampleBlock ''C'' ''Z'' ''t'']"
  have d: "distinct (map block_ID ?ex)" by (simp add: sampleBlock_def)
  have ev: "filterOrphanBlocks ?ex = Some [sampleBlock ''A'' [] ''t'', sampleBlock ''B'' ''A'' ''t'']"
    by (simp add: filterOrphanBlocks_def sampleBlock_def mapTrees_Cons mapTrees_Nil kids_def)
  from filterOrphanBlocks_breadth_first [of ?ex] d obtain out N where
    "filterOrphanBlocks ?ex = Some out" "N \<le> length ?ex" "out = breadthFirst ?ex N"
    by blast
  with ev have "N \<le> 3 \<and> [sampleBlock ''A'' [] ''t'', sampleBlock ''B'' ''A'' ''t''] = breadthFirst ?ex N"
    by simp
  with d ev show ?thesis by blast
qed

text \<open>
  The claim as stated, for every input list, fails when two blocks share an identifier:
  the only child of the identifier A is emitted once for each of the two roots named A.
\<close>

theorem filterOrphanBlocks_duplicates_counterexample:
  "filterOrphanBlocks
      [sampleBlock ''A'' [] ''x'', sampleBlock ''A'' [] ''y'', sampleBlock ''B'' ''A'' ''z'']
     = Some [sampleBlock ''A'' [] ''x'', sampleBlock ''A'' [] ''y'',
             sampleBlock ''B'' ''A'' ''z'', sampleBlock ''B'' ''A'' ''z''] \<and>
   distinct [sampleBlock ''A'' [] ''x'', sampleBlock ''A'' [] ''y'', sampleBlock ''B'' ''A'' ''z''] \<and>
   \<not> distinct [sampleBlock ''A'' [] ''x'', sampleBlock ''A'' [] ''y'',
             sampleBlock ''B'' ''A'' ''z'', sampleBlock ''B'' ''A'' ''z'']"
  by (simp add: filterOrphanBlocks_def sampleBlock_def mapTrees_Cons mapTrees_Nil kids_def)

text \<open>
  C9 (as amended). For every input list whose block identifiers are pairwise distinct,
  \<open>filterOrphanBlocks\<close> returns a list on which it returns that same list again.
\<close>

theorem filterOrphanBlocks_idempotent:
  "distinct (map block_ID blocks) \<Longrightarrow>
     \<exists>out. filterOrphanBlocks blocks = Some out \<and> filterOrphanBlocks out = Some out"
proof -
  assume d: "distinct (map block_ID blocks)"
  from bfsLevel_empty_exists [OF d] obtain N where N: "bfsLevel blocks N = []" by blast
  have "filterOrphanBlocks blocks = Some (breadthFirst blocks N)"
    using N by (rule filterOrphanBlocks_returns)
  moreover have "filterOrphanBlocks (breadthFirst blocks N) = Some (breadthFirst blocks N)"
    using d N by (rule filterOrphanBlocks_breadthFirst_fixed)
  ultimately show ?thesis by blast
qed

theorem filterOrphanBlocks_idempotent_witness:
  "distinct (map block_ID
      [sampleBlock ''C'' ''Z'' ''t'', sampleBlock ''B'' ''A'' ''t'', sampleBlock ''A'' [] ''t'']) \<and>
   filterOrphanBlocks
      [sampleBlock ''C'' ''Z'' ''t'', sampleBlock ''B'' ''A'' ''t'', sampleBlock ''A'' [] ''t'']
     = Some [sampleBlock ''A'' [] ''t'', sampleBlock ''B'' ''A'' ''t''] \<and>
   filterOrphanBlocks [sampleBlock ''A'' [] ''t'', sampleBlock ''B'' ''A'' ''t'']
     = Some [sampleBlock ''A'' [] ''t'', sampleBlock ''B'' ''A'' ''t'']"
proof -
  let ?ex = "[sampleBlock ''C'' ''Z'' ''t'', sampleBlock ''B'' ''A'' ''t'', sampleBlock ''A'' [] ''t'']"
  have d: "distinct (map block_ID ?ex)" by (simp add: sampleBlock_def)
  have ev: "filterOrphanBlocks ?ex = Some [sampleBlock ''A'' [] ''t'', sampleBlock ''B'' ''A'' ''t'']"
    by (simp add: filterOrphanBlocks_def sampleBlock_def mapTrees_Cons mapTrees_Nil kids_def)
  from filterOrphanBlocks_idempotent [OF d] obtain out where
    "filterOrphanBlocks ?ex = Some out" "filterOrphanBlocks out = Some out" by blast
  with ev have "filterOrphanBlocks [sampleBlock ''A'' [] ''t'', sampleBlock ''B'' ''A'' ''t'']
     = Some [sampleBlock ''A'' [] ''t'', sampleBlock ''B'' ''A'' ''t'']" by simp
  with d ev show ?thesis by blast
qed

text \<open>
  Idempotence as stated, for every input list, fails when two blocks share an identifier:
  the child emitted twice by the first pass is emitted four times by the second.
\<close>

theorem filterOrphanBlocks_idempotent_counterexample:
  "filterOrphanBlocks
      [sampleBlock ''A'' [] ''x'', sampleBlock ''A'' [] ''y'', sampleBlock ''B'' ''A'' ''z'']
     = Some [sampleBlock ''A'' [] ''x'', sampleBlock ''A'' [] ''y'',
             sampleBlock ''B'' ''A'' ''z'', sampleBlock ''B'' ''A'' ''z''] \<and>
   filterOrphanBlocks
      [sampleBlock ''A'' [] ''x'', sampleBlock ''A'' [] ''y'',
       sampleBlock ''B'' ''A'' ''z'', sampleBlock ''B'' ''A'' ''z'']
     = Some [sampleBlock ''A'' [] ''x'', sampleBlock ''A'' [] ''y'',
             sampleBlock ''B'' ''A'' ''z'', sampleBlock ''B'' ''A'' ''z'',
             sampleBlock ''B'' ''A'' ''z'', sampleBlock ''B'' ''A'' ''z'']"
  by (simp add: filterOrphanBlocks_def sampleBlock_def mapTrees_Cons mapTrees_Nil kids_def)

section \<open>Properties of the API layer\<close>

subsection \<open>Stamping\<close>

lemma stampBlocks_blocks:
  "fst (stampBlocks userID now i bs auditRec) =
     map (\<lambda>b. b\<lparr>block_ModifiedBy := userID, block_UpdateAt := now\<rparr>) bs"
  by (induction bs arbitrary: i auditRec) (simp_all add: Let_def split_beta)

lemma stampModificationMetadata_blocks:
  "fst (stampModificationMetadata r blocks auditRec c) =
     map (\<lambda>b. b\<lparr>block_ModifiedBy := (if getUserID r = SingleUser then [] else getUserID r),
                 block_UpdateAt := shd c\<rparr>) blocks"
  by (simp add: stampModificationMetadata_def GetMillis_def Let_def split_beta stampBlocks_blocks)

lemma stampModificationMetadata_clock:
  "snd (snd (stampModificationMetadata r blocks auditRec c)) = stl c"
  by (simp add: stampModificationMetadata_def GetMillis_def Let_def split_beta)

text \<open>
  C7. For every batch of blocks passed to \<open>stampModificationMetadata\<close>, every block's
  \<open>ModifiedBy\<close> field is set to the acting user's identifier, or to the empty string when
  the actor is the single-user sentinel; every block receives the same update timestamp,
  the value of the one clock reading the function makes (the clock is left advanced by
  exactly one reading); nothing else in the blocks changes.
\<close>

theorem stampModificationMetadata_stamps:
  assumes "stampModificationMetadata r blocks auditRec c = (blocks', auditRec', c')"
  shows "blocks' = map (\<lambda>b. b\<lparr>block_ModifiedBy := (if getUserID r = SingleUser then [] else getUserID r),
                              block_UpdateAt := shd c\<rparr>) blocks \<and>
         length blocks' = length blocks \<and>
         (\<forall>b \<in> set blocks'.
            block_ModifiedBy b = (if getUserID r = SingleUser then [] else getUserID r) \<and>
            block_UpdateAt b = shd c) \<and>
         c' = stl c"
proof -
  have b: "blocks' = map (\<lambda>b. b\<lparr>block_ModifiedBy := (if getUserID r = SingleUser then [] else getUserID r),
                              block_UpdateAt := shd c\<rparr>) blocks"
    using stampModificationMetadata_blocks [of r blocks auditRec c] assms by simp
  moreover have "c' = stl c"
    using stampModificationMetadata_clock [of r blocks auditRec c] assms by simp
  ultimately show ?thesis by auto
qed

theorem stampModificationMetadata_stamps_witness:
  "stampModificationMetadata (sampleRequest SingleUser []) [sampleBlock ''A'' [] ''t'', sampleBlock ''B'' ''A'' ''t'']
      None (siterate (\<lambda>t. t + 1) 1000)
     = ([(sampleBlock ''A'' [] ''t'')\<lparr>block_ModifiedBy := [], block_UpdateAt := 1000\<rparr>,
         (sampleBlock ''B'' ''A'' ''t'')\<lparr>block_ModifiedBy := [], block_UpdateAt := 1000\<rparr>],
        None, siterate (\<lambda>t. t + 1) 1001) \<and>
   stampModificationMetadata (sampleRequest ''user1'' []) [sampleBlock ''A'' [] ''t'', sampleBlock ''B'' ''A'' ''t'']
      None (siterate (\<lambda>t. t + 1) 1000)
     = ([(sampleBlock ''A'' [] ''t'')\<lparr>block_ModifiedBy := ''user1'', block_UpdateAt := 1000\<rparr>,
         (sampleBlock ''B'' ''A'' ''t'')\<lparr>block_ModifiedBy := ''user1'', block_UpdateAt := 1000\<rparr>],
        None, siterate (\<lambda>t. t + 1) 1001)"
proof -
  let ?bs = "[sampleBlock ''A'' [] ''t'', sampleBlock ''B'' ''A'' ''t'']"
  let ?c = "siterate (\<lambda>t. t + 1) (1000::int)"
  obtain bs1 a1 c1 where 1: "stampModificationMetadata (sampleRequest SingleUser []) ?bs None ?c = (bs1, a1, c1)"
    by (cases "stampModificationMetadata (sampleRequest SingleUser []) ?bs None ?c")
  obtain bs2 a2 c2 where 2: "stampModificationMetadata (sampleRequest ''user1'' []) ?bs None ?c = (bs2, a2, c2)"
    by (cases "stampModificationMetadata (sampleRequest ''user1'' []) ?bs None ?c")
  have a: "a1 = None" "a2 = None"
    using 1 2 by (simp_all add: stampModificationMetadata_def GetMillis_def Let_def split_beta)
  from stampModificationMetadata_stamps [OF 1] stampModificationMetadata_stamps [OF 2] a 1 2
  show ?thesis
    by (simp add: sampleRequest_def getUserID_def SingleUser_def)
qed

subsection \<open>Import\<close>



lemma stampBlocks_status:
  "snd (stampBlocks userID now i bs (Some a)) = Some a' \<Longrightarrow> rec_Status a' = rec_Status a"
  by (induction bs arbitrary: i a) (auto simp: Let_def split_beta AddMeta_def)



lemma importBlocks_clock: "snd (importBlocks env r blocks c) = stl c"
  by (simp add: importBlocks_def stampModificationMetadata_def GetMillis_def Let_def split_beta)




subsection \<open>Creating boards and blocks: validation\<close>

lemma checkBlocks_None_iff:
  "checkBlocks blocks = None \<longleftrightarrow>
     (\<forall>b \<in> set blocks. block_Type b \<noteq> [] \<and> 1 \<le> block_CreateAt b \<and> 1 \<le> block_UpdateAt b)"
  by (induction blocks) (auto simp: Suc_le_eq)

lemma checkBlocks_find:
  "checkBlocks blocks =
     (case find (\<lambda>b. block_Type b = [] \<or> block_CreateAt b < 1 \<or> block_UpdateAt b < 1) blocks of
        None \<Rightarrow> None
      | Some b \<Rightarrow>
          Some (if block_Type b = [] then ''missing type for block id '' @ block_ID b
                else if block_CreateAt b < 1 then ''invalid createAt for block id '' @ block_ID b
                else ''invalid UpdateAt for block id '' @ block_ID b))"
  by (induction blocks) auto

lemma createCommit_no_400: "ErrorResponse 400 message \<notin> set (createCommit env r teamID newBab)"
  by (simp add: createCommit_def Let_def split: sum.split)

lemma createPrivateCheck_no_400:
  "ErrorResponse 400 message \<notin> set (createPrivateCheck env r teamID priv newBab)"
  by (simp add: createPrivateCheck_def createCommit_no_400)

lemma createPublicCheck_no_400:
  "ErrorResponse 400 message \<notin> set (createPublicCheck env r teamID pub priv newBab)"
  by (simp add: createPublicCheck_def createPrivateCheck_no_400)

lemma checkBoards_messages:
  "checkBoards boards pub priv teamID = Inl message \<Longrightarrow>
     message = ''cannot create boards for multiple teams'' \<or>
     message = ''boards need an ID to be referenced from the blocks''"
  by (induction boards arbitrary: pub priv teamID) (auto simp: Let_def split: if_splits)

lemma create_after_block_check:
  assumes "checkBlocks (bab_Blocks newBab) = None"
  shows "handleCreateBoardsAndBlocks env r (Decoded newBab) =
     (case checkBoards (bab_Boards newBab) False False [] of
        Inl message \<Rightarrow> [ErrorResponse 400 message]
      | Inr (createsPublicBoards, createsPrivateBoards, teamID) \<Rightarrow>
          GenerateBoardsAndBlocksIDs newBab #
          (case model_GenerateBoardsAndBlocksIDs env newBab of
             Inl err \<Rightarrow> [ErrorResponse 400 []]
           | Inr newBab' \<Rightarrow>
               createPublicCheck env r teamID createsPublicBoards createsPrivateBoards newBab'))"
  using assms by (simp add: handleCreateBoardsAndBlocks_def)

lemma create_no_block_message:
  assumes "checkBlocks (bab_Blocks newBab) = None"
    and "ErrorResponse 400 message \<in> set (handleCreateBoardsAndBlocks env r (Decoded newBab))"
  shows "message = [] \<or> message = ''cannot create boards for multiple teams'' \<or>
         message = ''boards need an ID to be referenced from the blocks''"
proof (cases "checkBoards (bab_Boards newBab) False False []")
  case (Inl m)
  with assms checkBoards_messages [OF Inl] show ?thesis
    by (auto simp: create_after_block_check)
next
  case (Inr res)
  obtain pub priv teamID where "res = (pub, priv, teamID)" by (cases res)
  with Inr assms show ?thesis
    by (auto simp: create_after_block_check createPublicCheck_no_400 split: sum.splits)
qed

text \<open>
  C8. For every create request whose body decodes to a bundle: if any block of the bundle
  has an empty type, or \<open>createAt < 1\<close>, or \<open>updateAt < 1\<close>, the handler does nothing
  but answer 400, with the message of the first such block (no identifier is generated,
  no permission is asked, nothing is created). A bundle whose blocks all have a non-empty
  type and both timestamps at least 1 passes this check: the handler goes on with the
  check of the boards, the generation of identifiers, the permission checks and the
  creation, and no 400 it may still answer carries a message of the block check.
\<close>

theorem handleCreateBoardsAndBlocks_block_validation:
  "(\<forall>b. find (\<lambda>b. block_Type b = [] \<or> block_CreateAt b < 1 \<or> block_UpdateAt b < 1)
           (bab_Blocks newBab) = Some b \<longrightarrow>
        handleCreateBoardsAndBlocks env r (Decoded newBab) =
          [ErrorResponse 400
             (if block_Type b = [] then ''missing type for block id '' @ block_ID b
              else if block_CreateAt b < 1 then ''invalid createAt for block id '' @ block_ID b
              else ''invalid UpdateAt for block id '' @ block_ID b)]) \<and>
   ((\<exists>b \<in> set (bab_Blocks newBab). block_Type b = [] \<or> block_CreateAt b < 1 \<or> block_UpdateAt b < 1) \<longrightarrow>
      (\<exists>message. handleCreateBoardsAndBlocks env r (Decoded newBab) = [ErrorResponse 400 message])) \<and>
   ((\<forall>b \<in> set (bab_Blocks newBab). block_Type b \<noteq> [] \<and> 1 \<le> block_CreateAt b \<and> 1 \<le> block_UpdateAt b) \<longrightarrow>
      handleCreateBoardsAndBlocks env r (Decoded newBab) =
        (case checkBoards (bab_Boards newBab) False False [] of
           Inl message \<Rightarrow> [ErrorResponse 400 message]
         | Inr (createsPublicBoards, createsPrivateBoards, teamID) \<Rightarrow>
             GenerateBoardsAndBlocksIDs newBab #
             (case model_GenerateBoardsAndBlocksIDs env newBab of
                Inl err \<Rightarrow> [ErrorResponse 400 []]
              | Inr newBab' \<Rightarrow>
                  createPublicCheck env r teamID createsPublicBoards createsPrivateBoards newBab')) \<and>
      (\<forall>message. ErrorResponse 400 message \<in> set (handleCreateBoardsAndBlocks env r (Decoded newBab)) \<longrightarrow>
         message = [] \<or> message = ''cannot create boards for multiple teams'' \<or>
         message = ''boards need an ID to be referenced from the blocks''))"
proof (intro conjI impI allI)
  fix b
  assume "find (\<lambda>b. block_Type b = [] \<or> block_CreateAt b < 1 \<or> block_UpdateAt b < 1)
           (bab_Blocks newBab) = Some b"
  then show "handleCreateBoardsAndBlocks env r (Decoded newBab) =
          [ErrorResponse 400
             (if block_Type b = [] then ''missing type for block id '' @ block_ID b
              else if block_CreateAt b < 1 then ''invalid createAt for block id '' @ block_ID b
              else ''invalid UpdateAt for block id '' @ block_ID b)]"
    by (simp add: handleCreateBoardsAndBlocks_def checkBlocks_find)
next
  assume "\<exists>b \<in> set (bab_Blocks newBab). block_Type b = [] \<or> block_CreateAt b < 1 \<or> block_UpdateAt b < 1"
  then have "checkBlocks (bab_Blocks newBab) \<noteq> None"
    unfolding checkBlocks_None_iff by (metis not_less)
  then obtain message where "checkBlocks (bab_Blocks newBab) = Some message" by blast
  then have "handleCreateBoardsAndBlocks env r (Decoded newBab) = [ErrorResponse 400 message]"
    by (simp add: handleCreateBoardsAndBlocks_def)
  then show "\<exists>message. handleCreateBoardsAndBlocks env r (Decoded newBab) = [ErrorResponse 400 message]"
    by blast
next
  assume "\<forall>b \<in> set (bab_Blocks newBab). block_Type b \<noteq> [] \<and> 1 \<le> block_CreateAt b \<and> 1 \<le> block_UpdateAt b"
  then have "checkBlocks (bab_Blocks newBab) = None"
    by (simp add: checkBlocks_None_iff)
  then show "handleCreateBoardsAndBlocks env r (Decoded newBab) =
        (case checkBoards (bab_Boards newBab) False False [] of
           Inl message \<Rightarrow> [ErrorResponse 400 message]
         | Inr (createsPublicBoards, createsPrivateBoards, teamID) \<Rightarrow>
             GenerateBoardsAndBlocksIDs newBab #
             (case model_GenerateBoardsAndBlocksIDs env newBab of
                Inl err \<Rightarrow> [ErrorResponse 400 []]
              | Inr newBab' \<Rightarrow>
                  createPublicCheck env r teamID createsPublicBoards createsPrivateBoards newBab'))"
    by (rule create_after_block_check)
next
  fix message
  assume "\<forall>b \<in> set (bab_Blocks newBab). block_Type b \<noteq> [] \<and> 1 \<le> block_CreateAt b \<and> 1 \<le> block_UpdateAt b"
    and m: "ErrorResponse 400 message \<in> set (handleCreateBoardsAndBlocks env r (Decoded newBab))"
  then have "checkBlocks (bab_Blocks newBab) = None"
    by (simp add: checkBlocks_None_iff)
  from create_no_block_message [OF this m]
  show "message = [] \<or> message = ''cannot create boards for multiple teams'' \<or>
         message = ''boards need an ID to be referenced from the blocks''" .
qed

text \<open>
  A bundle whose second block has no valid update timestamp is answered with the message
  of that block; the same bundle with valid blocks is created.
\<close>

theorem handleCreateBoardsAndBlocks_block_validation_witness:
  "handleCreateBoardsAndBlocks sampleEnv (sampleRequest ''user1'' [])
      (Decoded \<lparr>bab_Boards = [sampleBoard ''b1'' ''team''],
                bab_Blocks = [sampleBlock ''k1'' [] ''t'',
                              (sampleBlock ''k2'' [] ''t'')\<lparr>block_UpdateAt := 0\<rparr>]\<rparr>)
     = [ErrorResponse 400 ''invalid UpdateAt for block id k2''] \<and>
   handleCreateBoardsAndBlocks sampleEnv (sampleRequest ''user1'' [])
      (Decoded \<lparr>bab_Boards = [sampleBoard ''b1'' ''team''],
                bab_Blocks = [sampleBlock ''k1'' [] ''t'', sampleBlock ''k2'' [] ''t'']\<rparr>)
     = [GenerateBoardsAndBlocksIDs
          \<lparr>bab_Boards = [sampleBoard ''b1'' ''team''],
           bab_Blocks = [sampleBlock ''k1'' [] ''t'', sampleBlock ''k2'' [] ''t'']\<rparr>,
        HasPermissionToTeam ''user1'' ''team'' PermissionCreatePublicChannel,
        CreateBoardsAndBlocks
          \<lparr>bab_Boards = [sampleBoard ''b1'' ''team''],
           bab_Blocks = [sampleBlock ''k1'' [] ''t'', sampleBlock ''k2'' [] ''t'']\<rparr> ''user1'' True,
        JsonResponse 200 ''{}'',
        LogRecord LevelModify
          \<lparr>rec_Event = ''createBoardsAndBlocks'', rec_Status = audit_Success, rec_UserID = ''user1'',
           rec_Meta = [(''teamID'', MetaString ''team''), (''userID'', MetaString ''user1''),
                       (''boardsCount'', MetaInt 1), (''blocksCount'', MetaInt 2)]\<rparr>]"
proof -
  let ?bad = "\<lparr>bab_Boards = [sampleBoard ''b1'' ''team''],
                bab_Blocks = [sampleBlock ''k1'' [] ''t'',
                              (sampleBlock ''k2'' [] ''t'')\<lparr>block_UpdateAt := 0\<rparr>]\<rparr>"
  let ?good = "\<lparr>bab_Boards = [sampleBoard ''b1'' ''team''],
                bab_Blocks = [sampleBlock ''k1'' [] ''t'', sampleBlock ''k2'' [] ''t'']\<rparr>"
  let ?r = "sampleRequest ''user1'' []"
  have f: "find (\<lambda>b. block_Type b = [] \<or> block_CreateAt b < 1 \<or> block_UpdateAt b < 1)
      (bab_Blocks ?bad) = Some ((sampleBlock ''k2'' [] ''t'')\<lparr>block_UpdateAt := 0\<rparr>)"
    by (simp add: sampleBlock_def)
  from handleCreateBoardsAndBlocks_block_validation [of ?bad sampleEnv ?r] f
  have 1: "handleCreateBoardsAndBlocks sampleEnv ?r (Decoded ?bad)
          = [ErrorResponse 400 ''invalid UpdateAt for block id k2'']"
    by (simp add: sampleBlock_def)
  have v: "\<forall>b \<in> set (bab_Blocks ?good). block_Type b \<noteq> [] \<and> 1 \<le> block_CreateAt b \<and> 1 \<le> block_UpdateAt b"
    by (simp add: sampleBlock_def)
  with handleCreateBoardsAndBlocks_block_validation [of ?good sampleEnv ?r]
  have "handleCreateBoardsAndBlocks sampleEnv ?r (Decoded ?good) =
        (case checkBoards (bab_Boards ?good) False False [] of
           Inl message \<Rightarrow> [ErrorResponse 400 message]
         | Inr (createsPublicBoards, createsPrivateBoards, teamID) \<Rightarrow>
             GenerateBoardsAndBlocksIDs ?good #
             (case model_GenerateBoardsAndBlocksIDs sampleEnv ?good of
                Inl err \<Rightarrow> [ErrorResponse 400 []]
              | Inr newBab' \<Rightarrow>
                  createPublicCheck sampleEnv ?r teamID createsPublicBoards createsPrivateBoards newBab'))"
    by blast
  then have 2: "handleCreateBoardsAndBlocks sampleEnv ?r (Decoded ?good)
     = [GenerateBoardsAndBlocksIDs ?good,
        HasPermissionToTeam ''user1'' ''team'' PermissionCreatePublicChannel,
        CreateBoardsAndBlocks ?good ''user1'' True,
        JsonResponse 200 ''{}'',
        LogRecord LevelModify
          \<lparr>rec_Event = ''createBoardsAndBlocks'', rec_Status = audit_Success, rec_UserID = ''user1'',
           rec_Meta = [(''teamID'', MetaString ''team''), (''userID'', MetaString ''user1''),
                       (''boardsCount'', MetaInt 1), (''blocksCount'', MetaInt 2)]\<rparr>]"
    by (simp add: createPublicCheck_def createPrivateCheck_def createCommit_def sampleEnv_def
        sampleRequest_def getUserID_def sampleBoard_def makeAuditRecord_def AddMeta_def
        Success_def Let_def)
  from 1 2 show ?thesis by (rule conjI)
qed

subsection \<open>Team consistency\<close>

lemma checkBoards_first_offender:
  assumes "teamID \<noteq> []"
    and "find (\<lambda>b. board_TeamID b \<noteq> teamID \<or> board_ID b = []) boards = Some b"
  shows "checkBoards boards pub priv teamID =
           Inl (if board_TeamID b \<noteq> teamID then ''cannot create boards for multiple teams''
                else ''boards need an ID to be referenced from the blocks'')"
  using assms
  by (induction boards arbitrary: pub priv) (auto simp: Let_def split: if_splits)

lemma checkBoards_rejects:
  assumes "teamID \<noteq> []" and "\<exists>b \<in> set boards. board_TeamID b \<noteq> teamID \<or> board_ID b = []"
  shows "\<exists>message. checkBoards boards pub priv teamID = Inl message"
proof -
  from assms(2) obtain b where "find (\<lambda>b. board_TeamID b \<noteq> teamID \<or> board_ID b = []) boards = Some b"
    by (cases "find (\<lambda>b. board_TeamID b \<noteq> teamID \<or> board_ID b = []) boards")
       (auto simp: find_None_iff)
  from checkBoards_first_offender [OF assms(1) this] show ?thesis by blast
qed

lemma create_rejected_by_boards:
  assumes "checkBoards (bab_Boards newBab) False False [] = Inl message"
  shows "\<exists>message'. handleCreateBoardsAndBlocks env r (Decoded newBab) = [ErrorResponse 400 message']"
    and "checkBlocks (bab_Blocks newBab) = None \<Longrightarrow>
         handleCreateBoardsAndBlocks env r (Decoded newBab) = [ErrorResponse 400 message]"
  using assms by (auto simp: handleCreateBoardsAndBlocks_def split: option.splits)

text \<open>
  C2 (as amended). For a create request whose first board carries a non-empty team
  identifier: if some later board carries another team identifier or an empty
  identifier, the handler does nothing but answer 400, so that no identifier has been
  generated and no permission asked. When the blocks pass their structural check, the
  message is that of the first such board in order: the one about multiple teams if its
  team differs from the first board's, the one about the missing identifier otherwise.
\<close>

theorem handleCreateBoardsAndBlocks_team_validation:
  assumes "bab_Boards newBab = first # others" and "board_TeamID first \<noteq> []"
  shows "((\<exists>b \<in> set others. board_TeamID b \<noteq> board_TeamID first \<or> board_ID b = []) \<longrightarrow>
            (\<exists>message. handleCreateBoardsAndBlocks env r (Decoded newBab) = [ErrorResponse 400 message])) \<and>
         (\<forall>b. checkBlocks (bab_Blocks newBab) = None \<and>
               find (\<lambda>b. board_TeamID b \<noteq> board_TeamID first \<or> board_ID b = []) others = Some b \<longrightarrow>
               handleCreateBoardsAndBlocks env r (Decoded newBab) =
                 [ErrorResponse 400
                    (if board_TeamID b \<noteq> board_TeamID first
                     then ''cannot create boards for multiple teams''
                     else ''boards need an ID to be referenced from the blocks'')])"
proof -
  have step: "checkBoards (bab_Boards newBab) False False [] =
      checkBoards others (board_Type first = BoardTypeOpen) (board_Type first = BoardTypePrivate)
        (board_TeamID first)"
    using assms(1) by (simp add: Let_def)
  show ?thesis
  proof (intro conjI impI allI)
    assume "\<exists>b \<in> set others. board_TeamID b \<noteq> board_TeamID first \<or> board_ID b = []"
    from checkBoards_rejects [OF assms(2) this] step
    obtain message where "checkBoards (bab_Boards newBab) False False [] = Inl message"
      by metis
    then show "\<exists>message. handleCreateBoardsAndBlocks env r (Decoded newBab) = [ErrorResponse 400 message]"
      by (rule create_rejected_by_boards(1))
  next
    fix b
    assume a: "checkBlocks (bab_Blocks newBab) = None \<and>
       find (\<lambda>b. board_TeamID b \<noteq> board_TeamID first \<or> board_ID b = []) others = Some b"
    then have "checkBoards (bab_Boards newBab) False False [] =
        Inl (if board_TeamID b \<noteq> board_TeamID first then ''cannot create boards for multiple teams''
             else ''boards need an ID to be referenced from the blocks'')"
      using checkBoards_first_offender [OF assms(2)] step by simp
    then show "handleCreateBoardsAndBlocks env r (Decoded newBab) =
                 [ErrorResponse 400
                    (if board_TeamID b \<noteq> board_TeamID first
                     then ''cannot create boards for multiple teams''
                     else ''boards need an ID to be referenced from the blocks'')]"
      using a create_rejected_by_boards(2) by blast
  qed
qed

theorem handleCreateBoardsAndBlocks_team_validation_witness:
  "handleCreateBoardsAndBlocks sampleEnv (sampleRequest ''user1'' [])
      (Decoded \<lparr>bab_Boards = [sampleBoard ''b1'' ''team1'', sampleBoard ''b2'' ''team2''],
                bab_Blocks = [sampleBlock ''k1'' [] ''t'']\<rparr>)
     = [ErrorResponse 400 ''cannot create boards for multiple teams''] \<and>
   handleCreateBoardsAndBlocks sampleEnv (sampleRequest ''user1'' [])
      (Decoded \<lparr>bab_Boards = [sampleBoard ''b1'' ''team1'', sampleBoard [] ''team1''],
                bab_Blocks = [sampleBlock ''k1'' [] ''t'']\<rparr>)
     = [ErrorResponse 400 ''boards need an ID to be referenced from the blocks'']"
proof -
  let ?two = "\<lparr>bab_Boards = [sampleBoard ''b1'' ''team1'', sampleBoard ''b2'' ''team2''],
                bab_Blocks = [sampleBlock ''k1'' [] ''t'']\<rparr>"
  let ?noid = "\<lparr>bab_Boards = [sampleBoard ''b1'' ''team1'', sampleBoard [] ''team1''],
                bab_Blocks = [sampleBlock ''k1'' [] ''t'']\<rparr>"
  have 1: "bab_Boards ?two = sampleBoard ''b1'' ''team1'' # [sampleBoard ''b2'' ''team2'']"
    and 2: "bab_Boards ?noid = sampleBoard ''b1'' ''team1'' # [sampleBoard [] ''team1'']"
    and t: "board_TeamID (sampleBoard ''b1'' ''team1'') \<noteq> []"
    by (simp_all add: sampleBoard_def)
  have c: "checkBlocks (bab_Blocks ?two) = None" "checkBlocks (bab_Blocks ?noid) = None"
    by (simp_all add: sampleBlock_def)
  have f1: "find (\<lambda>b. board_TeamID b \<noteq> board_TeamID (sampleBoard ''b1'' ''team1'') \<or> board_ID b = [])
              [sampleBoard ''b2'' ''team2''] = Some (sampleBoard ''b2'' ''team2'')"
    and f2: "find (\<lambda>b. board_TeamID b \<noteq> board_TeamID (sampleBoard ''b1'' ''team1'') \<or> board_ID b = [])
              [sampleBoard [] ''team1''] = Some (sampleBoard [] ''team1'')"
    by (simp_all add: sampleBoard_def)
  from handleCreateBoardsAndBlocks_team_validation [OF 1 t, of sampleEnv "sampleRequest ''user1'' []"]
    c(1) f1
  have "handleCreateBoardsAndBlocks sampleEnv (sampleRequest ''user1'' []) (Decoded ?two)
     = [ErrorResponse 400 ''cannot create boards for multiple teams'']"
    by (simp add: sampleBoard_def)
  moreover
  from handleCreateBoardsAndBlocks_team_validation [OF 2 t, of sampleEnv "sampleRequest ''user1'' []"]
    c(2) f2
  have "handleCreateBoardsAndBlocks sampleEnv (sampleRequest ''user1'' []) (Decoded ?noid)
     = [ErrorResponse 400 ''boards need an ID to be referenced from the blocks'']"
    by (simp add: sampleBoard_def)
  ultimately show ?thesis by simp
qed

text \<open>
  The claim as stated promises the message about multiple teams whenever two boards carry
  different team identifiers; a board without identifier that comes before the board of
  the other team decides the message instead.
\<close>

theorem handleCreateBoardsAndBlocks_team_message_counterexample:
  "handleCreateBoardsAndBlocks sampleEnv (sampleRequest ''user1'' [])
      (Decoded \<lparr>bab_Boards = [sampleBoard ''b1'' ''team1'', sampleBoard [] ''team1'',
                               sampleBoard ''b3'' ''team2''],
                bab_Blocks = [sampleBlock ''k1'' [] ''t'']\<rparr>)
     = [ErrorResponse 400 ''boards need an ID to be referenced from the blocks''] \<and>
   ''boards need an ID to be referenced from the blocks'' \<noteq> ''cannot create boards for multiple teams''"
  by (simp add: handleCreateBoardsAndBlocks_def sampleBoard_def sampleBlock_def)

text \<open>
  A first board with an empty team identifier leaves the running team identifier unset:
  the next board sets it and is not examined further, so this bundle of two boards with
  different team identifiers, the second without identifier, is created.
\<close>

lemma handleCreateBoardsAndBlocks_empty_team_accepted:
  "handleCreateBoardsAndBlocks sampleEnv (sampleRequest ''user1'' [])
      (Decoded \<lparr>bab_Boards = [sampleBoard ''b1'' [], sampleBoard [] ''team1''],
                bab_Blocks = [sampleBlock ''k1'' [] ''t'']\<rparr>)
     = [GenerateBoardsAndBlocksIDs
          \<lparr>bab_Boards = [sampleBoard ''b1'' [], sampleBoard [] ''team1''],
           bab_Blocks = [sampleBlock ''k1'' [] ''t'']\<rparr>,
        HasPermissionToTeam ''user1'' ''team1'' PermissionCreatePublicChannel,
        CreateBoardsAndBlocks
          \<lparr>bab_Boards = [sampleBoard ''b1'' [], sampleBoard [] ''team1''],
           bab_Blocks = [sampleBlock ''k1'' [] ''t'']\<rparr> ''user1'' True,
        JsonResponse 200 ''{}'',
        LogRecord LevelModify
          \<lparr>rec_Event = ''createBoardsAndBlocks'', rec_Status = audit_Success, rec_UserID = ''user1'',
           rec_Meta = [(''teamID'', MetaString ''team1''), (''userID'', MetaString ''user1''),
                       (''boardsCount'', MetaInt 2), (''blocksCount'', MetaInt 1)]\<rparr>]"
  by (simp add: handleCreateBoardsAndBlocks_def createPublicCheck_def createPrivateCheck_def
      createCommit_def sampleEnv_def sampleRequest_def getUserID_def sampleBoard_def sampleBlock_def
      makeAuditRecord_def AddMeta_def Success_def Let_def)

subsection \<open>Subtree levels\<close>

lemma ParseInt_examples:
  "ParseInt ''2'' = Some 2" "ParseInt ''3'' = Some 3" "ParseInt ''4'' = Some 4"
  "ParseInt ''abc'' = None" "ParseInt [] = None" "ParseInt ''-1'' = Some (- 1)"
  "ParseInt ''+3'' = Some 3" "ParseInt ''2147483647'' = Some 2147483647"
  "ParseInt ''2147483648'' = None" "ParseInt ''-2147483648'' = Some (- 2147483648)"
  "ParseInt ''2_0'' = None" "ParseInt ''5000000000'' = None" "ParseInt ''-'' = None"
  by (simp_all add: ParseInt_def ParseUint_def isDigit_def digitsValue_def)

lemma ParseInt_range: "ParseInt s = Some n \<Longrightarrow> - (2 ^ 31) \<le> n \<and> n < 2 ^ 31"
  by (auto simp: ParseInt_def Let_def split: list.splits option.splits if_splits)

lemma ParseInt_digits:
  "ParseInt s = Some n \<Longrightarrow>
     s \<noteq> [] \<and> list_all isDigit (if hd s = CHR ''+'' \<or> hd s = CHR ''-'' then tl s else s)"
  by (auto simp: ParseInt_def ParseUint_def Let_def split: list.splits option.splits if_splits)

lemma queryGet_absent: "req_Query r key = [] \<Longrightarrow> queryGet r key = []"
  by (simp add: queryGet_def)

text \<open>
  C5 (as amended). For every subtree request that passes the access check: a value of
  \<open>l\<close> that parses as a signed 32-bit decimal integer other than 2 and 3 is answered
  with 400 and the message \<open>invalid levels\<close>; the values 2 and 3 go on to fetch the
  subtree with that many levels; and a value that does not parse, as well as an omitted
  \<open>l\<close>, goes on exactly as \<open>l = 2\<close> does.
\<close>

theorem handleGetSubTree_levels:
  assumes "subTreeAccess env r = (accessEvents, True)"
  shows "(\<forall>n. ParseInt (queryGet r ''l'') = Some n \<and> n \<noteq> 2 \<and> n \<noteq> 3 \<longrightarrow>
            handleGetSubTree env r = accessEvents @ [ErrorResponse 400 ''invalid levels'']) \<and>
         (ParseInt (queryGet r ''l'') = Some 3 \<longrightarrow>
            handleGetSubTree env r = accessEvents @ subTreeFetch env r 3) \<and>
         (ParseInt (queryGet r ''l'') = Some 2 \<or> ParseInt (queryGet r ''l'') = None \<longrightarrow>
            handleGetSubTree env r = accessEvents @ subTreeFetch env r 2) \<and>
         (req_Query r ''l'' = [] \<longrightarrow> ParseInt (queryGet r ''l'') = None)"
  using assms
  by (auto simp: handleGetSubTree_def subTreeLevels_def queryGet_absent ParseInt_def)

theorem handleGetSubTree_levels_witness:
  "subTreeAccess sampleEnv (sampleRequest ''user1'' [''4''])
     = ([HasPermissionToBoard ''user1'' ''board'' PermissionViewBoard], True) \<and>
   handleGetSubTree sampleEnv (sampleRequest ''user1'' [''4''])
     = [HasPermissionToBoard ''user1'' ''board'' PermissionViewBoard,
        ErrorResponse 400 ''invalid levels''] \<and>
   handleGetSubTree sampleEnv (sampleRequest ''user1'' [''3''])
     = HasPermissionToBoard ''user1'' ''board'' PermissionViewBoard #
       subTreeFetch sampleEnv (sampleRequest ''user1'' [''3'']) 3 \<and>
   handleGetSubTree sampleEnv (sampleRequest ''user1'' [])
     = HasPermissionToBoard ''user1'' ''board'' PermissionViewBoard #
       subTreeFetch sampleEnv (sampleRequest ''user1'' []) 2"
proof -
  have a: "subTreeAccess sampleEnv (sampleRequest ''user1'' l)
     = ([HasPermissionToBoard ''user1'' ''board'' PermissionViewBoard], True)" for l
    by (simp add: subTreeAccess_def hasValidReadTokenForBoard_def queryGet_def sampleRequest_def
        sampleEnv_def getUserID_def)
  have p: "ParseInt (queryGet (sampleRequest ''user1'' [''4'']) ''l'') = Some 4"
    "ParseInt (queryGet (sampleRequest ''user1'' [''3'']) ''l'') = Some 3"
    "req_Query (sampleRequest ''user1'' []) ''l'' = []"
    by (simp_all add: queryGet_def sampleRequest_def ParseInt_examples)
  from handleGetSubTree_levels [OF a [of "[''4'']"]] handleGetSubTree_levels [OF a [of "[''3'']"]]
    handleGetSubTree_levels [OF a [of "[]"]] a p
  show ?thesis by simp
qed

text \<open>
  The claim as stated, that any value other than 2 or 3 is answered with 400, fails for
  a value that is not a number: the parse error makes the level 2 and the request
  succeeds.
\<close>

theorem handleGetSubTree_levels_counterexample:
  "queryGet (sampleRequest ''user1'' [''abc'']) ''l'' = ''abc'' \<and>
   handleGetSubTree sampleEnv (sampleRequest ''user1'' [''abc''])
     = [HasPermissionToBoard ''user1'' ''board'' PermissionViewBoard,
        GetSubTree ''board'' ''A'' 2,
        JsonResponse 200 ''[]'',
        LogRecord LevelRead
          \<lparr>rec_Event = ''getSubTree'', rec_Status = audit_Success, rec_UserID = ''user1'',
           rec_Meta = [(''boardID'', MetaString ''board''), (''blockID'', MetaString ''A''),
                       (''blockCount'', MetaInt 0)]\<rparr>]"
  by (simp add: handleGetSubTree_def subTreeAccess_def hasValidReadTokenForBoard_def
      subTreeLevels_def subTreeFetch_def queryGet_def sampleRequest_def sampleEnv_def getUserID_def
      ParseInt_examples makeAuditRecord_def AddMeta_def Success_def Let_def)

subsection \<open>Shapes of traces\<close>

lemma rejectedRun_snoc [simp]: "rejectedRun (pre @ [e]) = (list_all quiet pre \<and> isFailure e)"
  by (simp add: rejectedRun_def)

lemma rejectedRun_single [simp]: "rejectedRun [e] = isFailure e"
  by (simp add: rejectedRun_def)

lemma rejectedRun_append: "list_all quiet pre \<Longrightarrow> rejectedRun t \<Longrightarrow> rejectedRun (pre @ t)"
  by (auto simp: rejectedRun_def butlast_append)

lemma rejectedRun_Cons: "quiet e \<Longrightarrow> rejectedRun t \<Longrightarrow> rejectedRun (e # t)"
  using rejectedRun_append [of "[e]" t] by simp

lemma rejectedRunE:
  assumes "rejectedRun t"
  obtains pre e where "t = pre @ [e]" "list_all quiet pre" "isFailure e"
  using assms unfolding rejectedRun_def by (metis append_butlast_last_id)

lemma rejectedRun_snoc2 [simp]:
  "rejectedRun (pre @ [e, e']) = (list_all quiet pre \<and> quiet e \<and> isFailure e')"
  using rejectedRun_snoc [of "pre @ [e]" e'] by simp

lemma committedRun_snoc3 [simp]:
  "committedRun (pre @ [c, x, LogRecord level a]) =
     (level = LevelModify \<and> isCommit c \<and> list_all quiet pre \<and> outcomeMatches x (rec_Status a))"
  by (simp add: committedRun_def)

lemma committedRun_3 [simp]:
  "committedRun [c, x, LogRecord level a] =
     (level = LevelModify \<and> isCommit c \<and> outcomeMatches x (rec_Status a))"
  using committedRun_snoc3 [of "[]"] by simp



lemma wellFormedPart_continue [simp]: "wellFormedPart (es, Some x) = list_all quiet es"
  by (simp add: wellFormedPart_def)

lemma wellFormedPart_return [simp]: "wellFormedPart (es, None) = rejectedRun es"
  by (simp add: wellFormedPart_def)

lemma wellFormedPart_emit:
  "list_all quiet es \<Longrightarrow> wellFormedPart p \<Longrightarrow> wellFormedPart (emit es p)"
  by (cases p) (auto simp: emit_def wellFormedPart_def rejectedRun_append split: option.splits)

lemma snd_emit [simp]: "snd (emit es p) = snd p"
  by (simp add: emit_def)

lemma fst_emit [simp]: "fst (emit es p) = es @ fst p"
  by (simp add: emit_def)

lemma quiet_simps [simp]:
  "quiet (HasPermissionToTeam u t p)" "quiet (HasPermissionToBoard u b p)"
  "quiet (IsValidReadToken b tok)" "quiet (GetBoard b)" "quiet (GetBlockWithID k)"
  "quiet (GetSubTree b k l)" "quiet (GenerateBoardsAndBlocksIDs bab)"
  "\<not> quiet (ErrorResponse c m)" "\<not> quiet (JsonResponse c d)" "\<not> quiet (LogRecord lv a)"
  "\<not> quiet Panic" "\<not> quiet (CreateBoardsAndBlocks bab u f)"
  "\<not> quiet (PatchBoardsAndBlocks pbab u)" "\<not> quiet (DeleteBoardsAndBlocks dbab u)"
  by (simp_all add: quiet_def)

lemma patchBoardPermissions_wf: "wellFormedPart (patchBoardPermissions env userID boardID patch)"
  by (auto simp: patchBoardPermissions_def emit_def wellFormedPart_def rejectedRun_def
      split: option.splits)

lemma boardTeam_wf: "wellFormedPart (boardTeam env boardID teamID)"
  by (auto simp: boardTeam_def emit_def wellFormedPart_def rejectedRun_def Let_def
      split: option.splits sum.splits)

lemma patchBoards_wf: "wellFormedPart (patchBoards env userID boardIDs patches teamID boardIDMap)"
proof (induction env userID boardIDs patches teamID boardIDMap rule: patchBoards.induct)
  case (1 env userID patches teamID boardIDMap)
  show ?case by simp
next
  case (2 env userID boardID boardIDs teamID boardIDMap)
  show ?case by simp
next
  case (3 env userID boardID boardIDs patch patches teamID boardIDMap)
  show ?case
  proof (cases "patch_IsValid env patch")
    case (Some err)
    then show ?thesis by simp
  next
    case None
    obtain es1 r1 where p1: "patchBoardPermissions env userID boardID patch = (es1, r1)"
      by (cases "patchBoardPermissions env userID boardID patch")
    have w1: "wellFormedPart (es1, r1)" using patchBoardPermissions_wf [of env userID boardID patch] p1 by simp
    show ?thesis
    proof (cases r1)
      case None
      with w1 p1 \<open>patch_IsValid env patch = None\<close> show ?thesis by simp
    next
      case (Some u)
      obtain es2 r2 where p2: "boardTeam env boardID teamID = (es2, r2)"
        by (cases "boardTeam env boardID teamID")
      have w2: "wellFormedPart (es2, r2)" using boardTeam_wf [of env boardID teamID] p2 by simp
      show ?thesis
      proof (cases r2)
        case None
        with w1 w2 p1 p2 Some \<open>patch_IsValid env patch = None\<close> show ?thesis
          by (simp add: rejectedRun_append)
      next
        case (Some teamID')
        have "wellFormedPart (patchBoards env userID boardIDs patches teamID' (boardIDMap(boardID \<mapsto> True)))"
          using "3.IH" [OF \<open>patch_IsValid env patch = None\<close> p1 [symmetric] \<open>r1 = Some u\<close> p2 [symmetric] Some] .
        moreover have "list_all quiet (es1 @ es2)" using w1 w2 \<open>r1 = Some u\<close> Some by simp
        ultimately show ?thesis
          using p1 p2 \<open>r1 = Some u\<close> Some \<open>patch_IsValid env patch = None\<close>
          by (simp add: wellFormedPart_emit)
      qed
    qed
  qed
qed

lemma patchBlocks_wf: "wellFormedPart (patchBlocks env blockIDs boardIDMap)"
proof (induction blockIDs)
  case Nil
  show ?case by simp
next
  case (Cons blockID blockIDs)
  show ?case
    using Cons
    by (auto simp: wellFormedPart_def emit_def rejectedRun_Cons split: option.splits sum.splits)
qed


subsection \<open>What a shape says about a trace\<close>

lemma loggedRecords_quiet: "list_all quiet pre \<Longrightarrow> loggedRecords (pre @ t) = loggedRecords t"
  by (induction pre rule: loggedRecords.induct) (simp_all add: quiet_def)

lemma responseCodes_quiet: "list_all quiet pre \<Longrightarrow> responseCodes (pre @ t) = responseCodes t"
  by (induction pre rule: responseCodes.induct) (simp_all add: quiet_def)


lemma no_commit_quiet: "list_all quiet pre \<Longrightarrow> \<not> list_ex isCommit pre"
  by (induction pre) (simp_all add: quiet_def)

lemma rejectedRun_2 [simp]: "rejectedRun [e, e'] = (quiet e \<and> isFailure e')"
  using rejectedRun_snoc2 [of "[]" e e'] by simp

lemma fromFirstError_quiet: "list_all quiet pre \<Longrightarrow> fromFirstError (pre @ t) = fromFirstError t"
proof (induction pre)
  case Nil
  show ?case by simp
next
  case (Cons e pre)
  then have "\<not> isErrorResponse e" by (cases e) (simp_all add: quiet_def)
  with Cons show ?case by (simp add: fromFirstError_def)
qed

lemma rejectedRun_facts:
  assumes "rejectedRun t"
  shows "loggedRecords t = []" "\<not> list_ex isCommit t" "200 \<notin> set (responseCodes t)"
    "list_all (\<lambda>e. \<not> isPermissionCheck e) (fromFirstError t)"
proof -
  from assms obtain pre e where t: "t = pre @ [e]" and p: "list_all quiet pre" "isFailure e"
    by (rule rejectedRunE)
  show "loggedRecords t = []" using p by (cases e) (simp_all add: t loggedRecords_quiet)
  show "\<not> list_ex isCommit t" using p by (cases e) (simp_all add: t no_commit_quiet)
  show "200 \<notin> set (responseCodes t)" using p by (cases e) (simp_all add: t responseCodes_quiet)
  show "list_all (\<lambda>e. \<not> isPermissionCheck e) (fromFirstError t)"
    using p by (cases e) (simp_all add: t fromFirstError_quiet, simp_all add: fromFirstError_def)
qed


subsection \<open>Shapes of the composite handlers\<close>











subsection \<open>The block checks of a patch set\<close>

lemma patchBoards_dom:
  "patchBoards env userID boardIDs patches teamID boardIDMap = (es, Some boardIDMap') \<Longrightarrow>
     dom boardIDMap' = dom boardIDMap \<union> set boardIDs"
proof (induction env userID boardIDs patches teamID boardIDMap arbitrary: es
    rule: patchBoards.induct)
  case (1 env userID patches teamID boardIDMap)
  then show ?case by simp
next
  case (2 env userID boardID boardIDs teamID boardIDMap)
  then show ?case by simp
next
  case (3 env userID boardID boardIDs patch patches teamID boardIDMap)
  from "3.prems" have v: "patch_IsValid env patch = None"
    by (simp split: option.splits)
  obtain es1 r1 where p1: "patchBoardPermissions env userID boardID patch = (es1, r1)"
    by (cases "patchBoardPermissions env userID boardID patch")
  from "3.prems" v p1 obtain u where r1: "r1 = Some u"
    by (cases r1) simp_all
  obtain es2 r2 where p2: "boardTeam env boardID teamID = (es2, r2)"
    by (cases "boardTeam env boardID teamID")
  from "3.prems" v p1 r1 p2 obtain teamID' where r2: "r2 = Some teamID'"
    by (cases r2) simp_all
  obtain es3 where p3: "patchBoards env userID boardIDs patches teamID' (boardIDMap(boardID \<mapsto> True))
      = (es3, Some boardIDMap')"
    using "3.prems" v p1 r1 p2 r2
    by (cases "patchBoards env userID boardIDs patches teamID' (boardIDMap(boardID \<mapsto> True))")
       (simp add: emit_def)
  from "3.IH" [OF v p1 [symmetric] r1 p2 [symmetric] r2 p3]
  show ?case by auto
qed

lemma patchBlocks_continues:
  "snd (patchBlocks env blockIDs boardIDMap) = Some u \<Longrightarrow>
     \<forall>blockID \<in> set blockIDs. \<exists>block. app_GetBlockWithID env blockID = Inr (Some block) \<and>
        block_BoardID block \<in> dom boardIDMap"
  by (induction blockIDs) (auto split: sum.splits option.splits)

lemma patchBlocks_returns_400:
  assumes "\<forall>blockID \<in> set blockIDs. \<exists>found. app_GetBlockWithID env blockID = Inr found"
    and "snd (patchBlocks env blockIDs boardIDMap) = None"
  shows "responseCodes (fst (patchBlocks env blockIDs boardIDMap)) = [400]"
  using assms by (induction blockIDs) (auto split: sum.splits option.splits)

text \<open>
  C6 (as amended). When a patch request targets a block that does not exist, or one whose
  owning board is not among the request's board identifiers, no patch is applied and the
  request does not succeed, whatever else is in the request. When every targeted board
  has passed its checks (valid patch, permissions, existence, team) and the store answers
  the lookups of the targeted blocks, the one response written is the validation error
  400.
\<close>

theorem handlePatchBoardsAndBlocks_block_validation:
  assumes "\<exists>blockID \<in> set (pbab_BlockIDs pbab).
             \<not> (\<exists>block. app_GetBlockWithID env blockID = Inr (Some block) \<and>
                   block_BoardID block \<in> set (pbab_BoardIDs pbab))"
  shows "\<not> list_ex isCommit (handlePatchBoardsAndBlocks env r (Decoded pbab)) \<and>
         200 \<notin> set (responseCodes (handlePatchBoardsAndBlocks env r (Decoded pbab))) \<and>
         (snd (patchBoards env (getUserID r) (pbab_BoardIDs pbab) (pbab_BoardPatches pbab) []
                 Map.empty) \<noteq> None \<and>
          (\<forall>blockID \<in> set (pbab_BlockIDs pbab). \<exists>found. app_GetBlockWithID env blockID = Inr found)
          \<longrightarrow> responseCodes (handlePatchBoardsAndBlocks env r (Decoded pbab)) = [400])"
proof -
  let ?t = "handlePatchBoardsAndBlocks env r (Decoded pbab)"
  obtain es1 r1 where p1: "patchBoards env (getUserID r) (pbab_BoardIDs pbab)
      (pbab_BoardPatches pbab) [] Map.empty = (es1, r1)"
    by (cases "patchBoards env (getUserID r) (pbab_BoardIDs pbab) (pbab_BoardPatches pbab) [] Map.empty")
  have w1: "wellFormedPart (es1, r1)"
    using patchBoards_wf [of env "getUserID r" "pbab_BoardIDs pbab" "pbab_BoardPatches pbab" "[]" Map.empty]
      p1 by simp
  have blocks: "rejectedRun (es1 @ fst (patchBlocks env (pbab_BlockIDs pbab) boardIDMap)) \<and>
      ?t = es1 @ fst (patchBlocks env (pbab_BlockIDs pbab) boardIDMap) \<and>
      snd (patchBlocks env (pbab_BlockIDs pbab) boardIDMap) = None \<and> list_all quiet es1"
    if v: "pbab_IsValid env pbab = None" and r1: "r1 = Some boardIDMap" for boardIDMap
  proof -
    have d: "dom boardIDMap = set (pbab_BoardIDs pbab)"
      using patchBoards_dom [of env "getUserID r" "pbab_BoardIDs pbab" "pbab_BoardPatches pbab"
          "[]" Map.empty es1 boardIDMap] p1 r1 by simp
    obtain es2 r2 where p2: "patchBlocks env (pbab_BlockIDs pbab) boardIDMap = (es2, r2)"
      by (cases "patchBlocks env (pbab_BlockIDs pbab) boardIDMap")
    have n: "r2 = None"
    proof (cases r2)
      case (Some u)
      with patchBlocks_continues [of env "pbab_BlockIDs pbab" boardIDMap u] p2 d assms
      show ?thesis by auto
    qed simp
    have w2: "wellFormedPart (es2, r2)"
      using patchBlocks_wf [of env "pbab_BlockIDs pbab" boardIDMap] p2 by simp
    have q: "list_all quiet es1" using w1 r1 by simp
    with w2 n have "rejectedRun (es1 @ es2)" by (simp add: rejectedRun_append)
    moreover have "?t = es1 @ es2"
      using v p1 r1 p2 n by (simp add: handlePatchBoardsAndBlocks_def)
    ultimately show ?thesis using p2 n q by simp
  qed
  have rej: "rejectedRun ?t"
  proof (cases "pbab_IsValid env pbab")
    case (Some err)
    then show ?thesis by (simp add: handlePatchBoardsAndBlocks_def)
  next
    case None
    show ?thesis
    proof (cases r1)
      case None
      with w1 p1 \<open>pbab_IsValid env pbab = None\<close> show ?thesis
        by (simp add: handlePatchBoardsAndBlocks_def)
    next
      case (Some boardIDMap)
      with blocks [OF None Some] show ?thesis by simp
    qed
  qed
  have code: "responseCodes ?t = [400]"
    if c: "snd (patchBoards env (getUserID r) (pbab_BoardIDs pbab) (pbab_BoardPatches pbab) []
                 Map.empty) \<noteq> None"
      and s: "\<forall>blockID \<in> set (pbab_BlockIDs pbab). \<exists>found. app_GetBlockWithID env blockID = Inr found"
  proof (cases "pbab_IsValid env pbab")
    case (Some err)
    then show ?thesis by (simp add: handlePatchBoardsAndBlocks_def)
  next
    case None
    from c p1 obtain boardIDMap where r1: "r1 = Some boardIDMap" by auto
    from blocks [OF None r1] have t: "?t = es1 @ fst (patchBlocks env (pbab_BlockIDs pbab) boardIDMap)"
      and n: "snd (patchBlocks env (pbab_BlockIDs pbab) boardIDMap) = None"
      and q: "list_all quiet es1" by simp_all
    from patchBlocks_returns_400 [OF s n] q show ?thesis
      by (simp only: t responseCodes_quiet)
  qed
  from rejectedRun_facts(2,3) [OF rej] code show ?thesis by blast
qed

theorem handlePatchBoardsAndBlocks_block_validation_witness:
  "handlePatchBoardsAndBlocks sampleEnv (sampleRequest ''user1'' [])
      (Decoded (samplePatchSet [''board''] [''A'', ''X'']))
     = [HasPermissionToBoard ''user1'' ''board'' PermissionManageBoardProperties,
        GetBoard ''board'', GetBlockWithID ''A'', GetBlockWithID ''X'', ErrorResponse 400 []] \<and>
   responseCodes (handlePatchBoardsAndBlocks sampleEnv (sampleRequest ''user1'' [])
      (Decoded (samplePatchSet [''board''] [''A'', ''X'']))) = [400] \<and>
   \<not> list_ex isCommit (handlePatchBoardsAndBlocks sampleEnv (sampleRequest ''user1'' [])
      (Decoded (samplePatchSet [''board''] [''A'', ''X''])))"
proof -
  let ?p = "samplePatchSet [''board''] [''A'', ''X'']"
  let ?r = "sampleRequest ''user1'' []"
  have off: "\<exists>blockID \<in> set (pbab_BlockIDs ?p).
      \<not> (\<exists>block. app_GetBlockWithID sampleEnv blockID = Inr (Some block) \<and>
            block_BoardID block \<in> set (pbab_BoardIDs ?p))"
    by (simp add: samplePatchSet_def sampleEnv_def sampleBlock_def)
  have v: "pbab_IsValid sampleEnv ?p = None" by (simp add: sampleEnv_def)
  have b: "snd (patchBoards sampleEnv (getUserID ?r) (pbab_BoardIDs ?p) (pbab_BoardPatches ?p) []
      Map.empty) \<noteq> None"
    by (simp add: samplePatchSet_def sampleEnv_def patchBoardPermissions_def boardTeam_def
        emit_def sampleBoard_def Let_def)
  have s: "\<forall>blockID \<in> set (pbab_BlockIDs ?p). \<exists>found. app_GetBlockWithID sampleEnv blockID = Inr found"
    by (simp add: samplePatchSet_def sampleEnv_def)
  have ev: "handlePatchBoardsAndBlocks sampleEnv ?r (Decoded ?p)
     = [HasPermissionToBoard ''user1'' ''board'' PermissionManageBoardProperties,
        GetBoard ''board'', GetBlockWithID ''A'', GetBlockWithID ''X'', ErrorResponse 400 []]"
    by (simp add: handlePatchBoardsAndBlocks_def samplePatchSet_def sampleEnv_def
        patchBoardPermissions_def boardTeam_def emit_def sampleBoard_def sampleBlock_def
        sampleRequest_def getUserID_def Let_def)
  from handlePatchBoardsAndBlocks_block_validation [OF off, of ?r] b s
  have "\<not> list_ex isCommit (handlePatchBoardsAndBlocks sampleEnv ?r (Decoded ?p)) \<and>
        responseCodes (handlePatchBoardsAndBlocks sampleEnv ?r (Decoded ?p)) = [400]"
    by blast
  with ev show ?thesis by blast
qed

text \<open>
  The claim as stated promises the status 400 for every request with such a block. The
  boards are checked before the blocks: when the permission on a targeted board is
  denied, the request with a missing block is answered with 403.
\<close>

theorem handlePatchBoardsAndBlocks_block_validation_counterexample:
  "app_GetBlockWithID denyingEnv ''missing'' = Inr None \<and>
   handlePatchBoardsAndBlocks denyingEnv (sampleRequest ''user1'' [])
       (Decoded (samplePatchSet [''board''] [''missing'']))
     = [HasPermissionToBoard ''user1'' ''board'' PermissionManageBoardProperties,
        ErrorResponse 403 []]"
  by (simp add: handlePatchBoardsAndBlocks_def samplePatchSet_def denyingEnv_def sampleEnv_def
      patchBoardPermissions_def emit_def sampleRequest_def getUserID_def)

subsection \<open>Order of validation and permission checks\<close>


subsection \<open>Which check comes first\<close>


















subsection \<open>The audit record\<close>




end
